theory Spec2Isabelle
  imports Complex_Main "HOL-Library.AList"
begin

section \<open>The rewiring environment of \<open>graph_env.py\<close>\<close>

text \<open>
  A shallow embedding of the class \<open>GraphEnvironment\<close>
  (\<open>src/environment/graph_env.py\<close>). Node identifiers are Python integers (\<open>int\<close>).
  Where the source turns a float into an integer (\<open>int(...)\<close> in \<open>get_edge_budget\<close>,
  \<open>int(np.ceil(...))\<close> in \<open>fixed_community\<close>) the double-precision arithmetic is
  modelled with its rounding. The floats of the reward and the penalty, which are only
  compared and returned, are idealised as real numbers.
  A method that mutates \<open>self\<close> takes the environment and returns the updated one; a
  method that can raise returns a sum whose left injection is the exception.
\<close>

subsection \<open>Exceptions\<close>

datatype error =
  AssertionError
  | ValueError
  | IndexError
  | AttributeError
  | NetworkXError
  | ZeroDivisionError

subsection \<open>The networkx graph\<close>

text \<open>
  An undirected \<open>nx.Graph\<close>: the nodes in insertion order, and the adjacency dictionary
  flattened to an association list from ordered pairs to the edge weight. networkx keeps
  the entry \<open>adj[u][v]\<close> together with \<open>adj[v][u]\<close>; so do \<open>add_edge\<close> and
  \<open>remove_edge\<close> below. Node feature vectors are opaque to the environment's logic and
  are left out.
\<close>

record nx_graph =
  nx_nodes :: "int list"
  nx_adj :: "((int \<times> int) \<times> int) list"

definition has_edge :: "nx_graph \<Rightarrow> int \<Rightarrow> int \<Rightarrow> bool" where
  "has_edge g u v = (map_of (nx_adj g) (u, v) \<noteq> None)"

definition add_node :: "int \<Rightarrow> int list \<Rightarrow> int list" where
  "add_node u ns = (if u \<in> set ns then ns else ns @ [u])"

definition add_edge :: "nx_graph \<Rightarrow> int \<Rightarrow> int \<Rightarrow> int \<Rightarrow> nx_graph" where
  "add_edge g u v w =
     g\<lparr>nx_nodes := add_node v (add_node u (nx_nodes g)),
       nx_adj := AList.update (v, u) w (AList.update (u, v) w (nx_adj g))\<rparr>"

definition remove_edge :: "nx_graph \<Rightarrow> int \<Rightarrow> int \<Rightarrow> error + nx_graph" where
  "remove_edge g u v =
     (if map_of (nx_adj g) (u, v) = None then Inl NetworkXError
      else Inr (g\<lparr>nx_adj := AList.delete (v, u) (AList.delete (u, v) (nx_adj g))\<rparr>))"

definition number_of_nodes :: "nx_graph \<Rightarrow> int" where
  "number_of_nodes g = int (length (nx_nodes g))"

text \<open>
  \<open>number_of_edges\<close> is half the sum of the degrees, a self-loop counting twice in the
  degree of its node.
\<close>

definition number_of_edges :: "nx_graph \<Rightarrow> int" where
  "number_of_edges g =
     (int (length (nx_adj g)) + int (length (filter (\<lambda>e. fst (fst e) = snd (fst e)) (nx_adj g))))
       div 2"

subsection \<open>Double-precision numbers\<close>

text \<open>
  A Python float is a double: a signed integer times a power of two,
  \<open>mantissa * 2 ^ exponent\<close>. Every operation returns the double nearest to the exact
  result, a tie going to the even mantissa. The exact result is a ratio \<open>p / q\<close> of
  integers; \<open>round_positive\<close> scales it by the power of two that puts it into
  \<open>[2 ^ 52, 2 ^ 53)\<close>, so that the mantissa has 53 bits, and rounds it to an integer.
  The range of the exponent is not bounded: overflow and subnormal numbers, which no
  quotient of a graph's counts times a \<open>beta\<close> between 0 and 100 reaches, are left out,
  as are infinities and NaN.
\<close>

datatype double = Double (mantissa: int) (exponent: int)

definition value_of :: "double \<Rightarrow> real" where
  "value_of x =
     (if 0 \<le> exponent x then real_of_int (mantissa x * 2 ^ nat (exponent x))
      else real_of_int (mantissa x) / 2 ^ nat (- exponent x))"

text \<open>\<open>int.bit_length\<close>: the number of binary digits of a positive integer.\<close>

function bit_length :: "int \<Rightarrow> int" where
  "bit_length n = (if n \<le> 0 then 0 else 1 + bit_length (n div 2))"
  by pat_completeness auto
termination
  by (relation "measure nat") auto

declare bit_length.simps [simp del]

definition round_half_even :: "int \<Rightarrow> int \<Rightarrow> int" where
  "round_half_even a b =
     (let n = a div b; r = a mod b
      in if 2 * r < b then n
         else if b < 2 * r then n + 1
         else if even n then n else n + 1)"

text \<open>\<open>scaled p q k\<close> is the ratio \<open>(p / q) / 2 ^ k\<close>, as a pair of integers.\<close>

definition scaled :: "int \<Rightarrow> int \<Rightarrow> int \<Rightarrow> int \<times> int" where
  "scaled p q k = (if 0 \<le> k then (p, q * 2 ^ nat k) else (p * 2 ^ nat (- k), q))"

text \<open>
  For positive \<open>p\<close> and \<open>q\<close> the ratio lies strictly between \<open>2 ^ (d - 1)\<close> and
  \<open>2 ^ (d + 1)\<close>, where \<open>d\<close> is the difference of the bit lengths; one comparison
  finds the exponent.
\<close>

definition round_positive :: "int \<Rightarrow> int \<Rightarrow> double" where
  "round_positive p q =
     (let k0 = bit_length p - bit_length q - 53;
          k = (if fst (scaled p q k0) < snd (scaled p q k0) * 2 ^ 53 then k0 else k0 + 1)
      in Double (round_half_even (fst (scaled p q k)) (snd (scaled p q k))) k)"

text \<open>The double nearest to \<open>p / q\<close>, for \<open>q\<close> positive.\<close>

definition round_ratio :: "int \<Rightarrow> int \<Rightarrow> double" where
  "round_ratio p q =
     (if p = 0 then Double 0 0
      else if p < 0 then
        Double (- mantissa (round_positive (- p) q)) (exponent (round_positive (- p) q))
      else round_positive p q)"

text \<open>The double nearest to \<open>m * 2 ^ e\<close>.\<close>

definition round_scaled :: "int \<Rightarrow> int \<Rightarrow> double" where
  "round_scaled m e =
     (if 0 \<le> e then round_ratio (m * 2 ^ nat e) 1 else round_ratio m (2 ^ nat (- e)))"

text \<open>
  \<open>float(n)\<close> of an integer, and \<open>a / b\<close> of two integers with \<open>b\<close> not zero: Python
  rounds the exact quotient once.
\<close>

definition double_of_int :: "int \<Rightarrow> double" where
  "double_of_int n = round_ratio n 1"

definition true_divide :: "int \<Rightarrow> int \<Rightarrow> double" where
  "true_divide a b = (if 0 < b then round_ratio a b else round_ratio (- a) (- b))"

definition float_mul :: "double \<Rightarrow> double \<Rightarrow> double" where
  "float_mul x y = round_scaled (mantissa x * mantissa y) (exponent x + exponent y)"

definition float_add :: "double \<Rightarrow> double \<Rightarrow> double" where
  "float_add x y =
     (let e = min (exponent x) (exponent y)
      in round_scaled
           (mantissa x * 2 ^ nat (exponent x - e) + mantissa y * 2 ^ nat (exponent y - e)) e)"

text \<open>
  \<open>int(x)\<close> truncates towards zero. \<open>np.ceil(x)\<close> is the double of value
  \<open>ceil(x)\<close>, which is always a double.
\<close>

definition float_to_int :: "double \<Rightarrow> int" where
  "float_to_int x =
     (if 0 \<le> exponent x then mantissa x * 2 ^ nat (exponent x)
      else if 0 \<le> mantissa x then mantissa x div 2 ^ nat (- exponent x)
      else - ((- mantissa x) div 2 ^ nat (- exponent x)))"

definition np_ceil :: "double \<Rightarrow> double" where
  "np_ceil x =
     (if 0 \<le> exponent x then x
      else Double (- ((- mantissa x) div 2 ^ nat (- exponent x))) 0)"

subsection \<open>The state of the environment\<close>

text \<open>
  A community structure is the list of communities of a \<open>NodeClustering\<close>, each a list
  of nodes. The possible actions are the dictionary with the two keys \<open>"ADD"\<close> and
  \<open>"REMOVE"\<close>, each holding a set of pairs.
\<close>

type_synonym community_structure = "int list list"

record possible_action_sets =
  ADD :: "(int \<times> int) set"
  REMOVE :: "(int \<times> int) set"

text \<open>
  The record holds the attributes of a constructed environment. Attributes that stay
  \<open>None\<close> after the constructor (\<open>old_graph\<close>, \<open>lambda_metric\<close>, \<open>alpha_metric\<close>,
  \<open>new_community_structure\<close>) are options; the target community and node are assigned
  by the constructor's call of \<open>change_target_community\<close>. \<open>beta\<close> and
  \<open>preferred_community_size\<close> are doubles (an integer given for one of them enters
  the arithmetic as \<open>float\<close> of it).
\<close>

record env =
  env_name :: string
  graph :: nx_graph
  original_graph :: nx_graph
  old_graph :: "nx_graph option"
  beta :: double
  tau :: real
  lambda_metric :: "real option"
  alpha_metric :: "real option"
  old_penalty_value :: real
  original_community_structure :: community_structure
  old_community_structure :: community_structure
  new_community_structure :: "community_structure option"
  preferred_community_size :: double
  community_target :: "int list"
  node_target :: int
  edge_budget :: int
  used_edge_budget :: int
  max_steps :: int
  stop_episode :: bool
  rewards :: real
  old_rewards :: real
  possible_actions :: possible_action_sets
  len_add_actions :: nat

text \<open>
  The collaborators that are not part of the environment's source: the community
  detection algorithm, the normalised mutual information of two structures, and the two
  similarity functions selected at construction. They are parameters of the model.
  \<open>graph_similarity\<close> receives \<open>self.old_graph\<close> as it is, \<open>None\<close> included.
\<close>

record collaborators =
  compute_community :: "nx_graph \<Rightarrow> community_structure"
  normalized_mutual_information :: "community_structure \<Rightarrow> community_structure \<Rightarrow> real"
  community_similarity :: "int list \<Rightarrow> int list \<Rightarrow> real"
  graph_similarity :: "nx_graph \<Rightarrow> nx_graph option \<Rightarrow> real"

subsection \<open>\<open>get_possible_actions\<close>\<close>

definition in_community :: "env \<Rightarrow> int \<Rightarrow> bool" where
  "in_community e n = (n \<in> set (community_target e))"

definition out_community :: "env \<Rightarrow> int \<Rightarrow> bool" where
  "out_community e n = (n \<notin> set (community_target e))"

text \<open>One iteration of the loop over \<open>self.graph.nodes()\<close>, for the node \<open>v\<close>.\<close>

definition visit_node :: "env \<Rightarrow> int \<Rightarrow> possible_action_sets \<Rightarrow> possible_action_sets" where
  "visit_node e v pa =
     (let u = node_target e in
      if u = v then pa
      else if in_community e u \<and> in_community e v then
        (if has_edge (graph e) u v then
           (if (v, u) \<notin> REMOVE pa then pa\<lparr>REMOVE := insert (u, v) (REMOVE pa)\<rparr> else pa)
         else pa)
      else if (in_community e u \<and> out_community e v) \<or> (out_community e u \<and> in_community e v) then
        (if \<not> has_edge (graph e) u v then
           (if (v, u) \<notin> ADD pa then pa\<lparr>ADD := insert (u, v) (ADD pa)\<rparr> else pa)
         else pa)
      else pa)"

definition get_possible_actions :: "env \<Rightarrow> possible_action_sets" where
  "get_possible_actions e =
     fold (visit_node e) (nx_nodes (graph e)) \<lparr>ADD = {}, REMOVE = {}\<rparr>"

text \<open>
  Inside the loop every stored pair starts at the target node and ends elsewhere.
\<close>

definition stored_from_target :: "env \<Rightarrow> possible_action_sets \<Rightarrow> bool" where
  "stored_from_target e pa \<longleftrightarrow>
     (\<forall>p \<in> ADD pa \<union> REMOVE pa. fst p = node_target e \<and> snd p \<noteq> node_target e)"

subsection \<open>\<open>apply_action\<close>\<close>

definition apply_action :: "env \<Rightarrow> int \<Rightarrow> error + (env \<times> int)" where
  "apply_action e a =
     (let action = (node_target e, a);
          action_reversed = (snd action, fst action);
          pa = possible_actions e
      in
      if action \<in> ADD pa then
        Inr (e\<lparr>graph := add_edge (graph e) (fst action) (snd action) 1,
               possible_actions := pa\<lparr>ADD := ADD pa - {action}\<rparr>\<rparr>, 1)
      else if action_reversed \<in> ADD pa then
        Inr (e\<lparr>graph := add_edge (graph e) (fst action_reversed) (snd action_reversed) 1,
               possible_actions := pa\<lparr>ADD := ADD pa - {action_reversed}\<rparr>\<rparr>, 1)
      else if action \<in> REMOVE pa then
        (case remove_edge (graph e) (fst action) (snd action) of
           Inl err \<Rightarrow> Inl err
         | Inr g \<Rightarrow> Inr (e\<lparr>graph := g,
                            possible_actions := pa\<lparr>REMOVE := REMOVE pa - {action}\<rparr>\<rparr>, 1))
      else if action_reversed \<in> REMOVE pa then
        (case remove_edge (graph e) (fst action_reversed) (snd action_reversed) of
           Inl err \<Rightarrow> Inl err
         | Inr g \<Rightarrow> Inr (e\<lparr>graph := g,
                            possible_actions := pa\<lparr>REMOVE := REMOVE pa - {action_reversed}\<rparr>\<rparr>, 1))
      else Inr (e, 0))"

subsection \<open>Penalty and reward\<close>

text \<open>
  \<open>get_penalty\<close> reads the score of the normalised mutual information first (an
  unset \<open>new_community_structure\<close> has no such method), then the graph distance, and
  only then asserts that \<open>alpha_metric\<close> is set.
\<close>

definition get_penalty :: "collaborators \<Rightarrow> env \<Rightarrow> error + (env \<times> real)" where
  "get_penalty K e =
     (case new_community_structure e of
        None \<Rightarrow> Inl AttributeError
      | Some new \<Rightarrow>
          (let community_distance = normalized_mutual_information K new (old_community_structure e);
               community_distance = 1 - community_distance;
               graph_distance = graph_similarity K (graph e) (old_graph e)
           in case alpha_metric e of
                None \<Rightarrow> Inl AssertionError
              | Some alpha \<Rightarrow>
                  (let penalty = alpha * community_distance + (1 - alpha) * graph_distance;
                       penalty = penalty - old_penalty_value e
                   in Inr (e\<lparr>old_penalty_value := penalty\<rparr>, penalty))))"

text \<open>
  In \<open>get_reward\<close>, \<open>list.remove\<close> deletes the first occurrence of the target node
  (\<open>remove1\<close>) and raises \<open>ValueError\<close> when the node is not in the list.
\<close>

definition get_reward :: "collaborators \<Rightarrow> env \<Rightarrow> error + (env \<times> real \<times> bool)" where
  "get_reward K e =
     (case lambda_metric e of
        None \<Rightarrow> Inl AssertionError
      | Some lam \<Rightarrow>
     (case new_community_structure e of
        None \<Rightarrow> Inl AttributeError
      | Some new \<Rightarrow>
     (case find (\<lambda>c. node_target e \<in> set c) new of
        None \<Rightarrow> Inl AssertionError
      | Some new_community_target \<Rightarrow>
     (case get_penalty K e of
        Inl err \<Rightarrow> Inl err
      | Inr (e', penalty) \<Rightarrow>
          if length new_community_target = 1 then Inr (e', 1 - lam * penalty, True)
          else if node_target e' \<notin> set (community_target e') then Inl ValueError
          else
            (let new_community_target_copy = remove1 (node_target e') new_community_target;
                 community_target_copy = remove1 (node_target e') (community_target e');
                 similarity = community_similarity K new_community_target_copy community_target_copy
             in if similarity \<le> tau e' then Inr (e', 1 - lam * penalty, True)
                else Inr (e', 0 - lam * penalty, False))))))"

subsection \<open>\<open>step\<close> and \<open>act\<close>\<close>

text \<open>
  \<open>step\<close> returns the updated environment together with the tuple
  \<open>(graph, rewards, stop_episode, done)\<close>. The last assignment copies
  \<open>new_community_structure\<close>, which was assigned a few lines above and is not \<open>None\<close>
  there.
\<close>

definition step :: "collaborators \<Rightarrow> env \<Rightarrow> int \<Rightarrow> error + (env \<times> nx_graph \<times> real \<times> bool \<times> bool)" where
  "step K e action =
     (let e1 = e\<lparr>old_graph := Some (graph e)\<rparr> in
      case apply_action e1 action of
        Inl err \<Rightarrow> Inl err
      | Inr (e2, budget_consumed) \<Rightarrow>
          if budget_consumed = 0 then
            (let e3 = e2\<lparr>rewards := - 1\<rparr>
             in Inr (e3, graph e3, rewards e3, stop_episode e3, False))
          else
            (let e3 = e2\<lparr>new_community_structure := Some (compute_community K (graph e2))\<rparr> in
             case get_reward K e3 of
               Inl err \<Rightarrow> Inl err
             | Inr (e4, reward, done) \<Rightarrow>
                 (let e5 = e4\<lparr>rewards := reward\<rparr>;
                      e6 = (if done then e5\<lparr>stop_episode := True\<rparr> else e5);
                      e7 = e6\<lparr>used_edge_budget := used_edge_budget e6 + budget_consumed\<rparr>;
                      e8 = (if edge_budget e7 - used_edge_budget e7 < 1
                            then e7\<lparr>stop_episode := True\<rparr> else e7);
                      e9 = (case new_community_structure e8 of
                              Some new \<Rightarrow> e8\<lparr>old_community_structure := new\<rparr>
                            | None \<Rightarrow> e8)
                  in Inr (e9, graph e9, rewards e9, stop_episode e9, done))))"

text \<open>
  In \<open>act\<close>, the branch under \<open>budget_consumed == -1\<close> removes the target node from
  the list object that sits inside the new community structure: the structure itself
  changes (\<open>remove_in_first\<close>), while the target community is copied first.
\<close>

fun remove_in_first :: "int \<Rightarrow> int list list \<Rightarrow> int list list" where
  "remove_in_first n [] = []"
| "remove_in_first n (c # cs) =
     (if n \<in> set c then remove1 n c # cs else c # remove_in_first n cs)"

definition act_similarity_test :: "collaborators \<Rightarrow> env \<Rightarrow> error + env" where
  "act_similarity_test K e =
     (let new = compute_community K (graph e) in
      case find (\<lambda>c. node_target e \<in> set c) new of
        None \<Rightarrow> Inl AttributeError
      | Some new_community_target \<Rightarrow>
          if node_target e \<notin> set (community_target e) then Inl ValueError
          else
            (let e1 = e\<lparr>new_community_structure := Some (remove_in_first (node_target e) new)\<rparr>;
                 community_target_copy = remove1 (node_target e) (community_target e);
                 similarity = community_similarity K (remove1 (node_target e) new_community_target)
                                community_target_copy
             in if similarity \<le> tau e then Inr (e1\<lparr>stop_episode := True\<rparr>) else Inr e1))"

definition act :: "collaborators \<Rightarrow> env \<Rightarrow> int \<Rightarrow> error + (env \<times> nx_graph \<times> bool)" where
  "act K e action =
     (case apply_action e action of
        Inl err \<Rightarrow> Inl err
      | Inr (e1, budget_consumed) \<Rightarrow>
          (case (if budget_consumed = - 1 then act_similarity_test K e1 else Inr e1) of
             Inl err \<Rightarrow> Inl err
           | Inr e2 \<Rightarrow>
               (let e3 = e2\<lparr>used_edge_budget := used_edge_budget e2 + budget_consumed\<rparr>;
                    e4 = (if edge_budget e3 - used_edge_budget e3 < 1
                          then e3\<lparr>stop_episode := True\<rparr> else e3)
                in Inr (e4, graph e4, stop_episode e4))))"

subsection \<open>\<open>reset\<close>\<close>

text \<open>
  \<open>self.original_graph.copy()\<close> is a new object with the same nodes and edges: in the
  model the working graph and the original graph are separate fields, and no operation
  on one touches the other.
\<close>

definition reset :: "env \<Rightarrow> bool \<Rightarrow> env \<times> nx_graph" where
  "reset e graph_reset =
     (let e1 = e\<lparr>used_edge_budget := 0, stop_episode := False, rewards := 0, old_rewards := 0\<rparr>;
          e2 = (if graph_reset then e1\<lparr>graph := original_graph e1\<rparr> else e1);
          e3 = e2\<lparr>old_graph := None, old_penalty_value := 0,
                  old_community_structure := original_community_structure e2\<rparr>;
          e4 = e3\<lparr>possible_actions := get_possible_actions e3\<rparr>
      in (e4, graph e4))"

subsection \<open>\<open>get_edge_budget\<close>\<close>

text \<open>
  \<open>number_of_edges() / number_of_nodes()\<close> divides two integers; adding \<open>1\<close> and
  multiplying by \<open>beta\<close> are float operations, each rounded; \<open>int\<close> truncates.
\<close>

definition get_edge_budget :: "env \<Rightarrow> error + int" where
  "get_edge_budget e =
     (if env_name e = ''pow'' \<or> env_name e = ''kar'' then
        (if number_of_nodes (graph e) = 0 then Inl ZeroDivisionError
         else Inr (float_to_int
           (float_mul
              (float_add (true_divide (number_of_edges (graph e)) (number_of_nodes (graph e)))
                 (double_of_int 1))
              (beta e))))
      else
        (if number_of_nodes (graph e) = 0 then Inl ZeroDivisionError
         else Inr (float_to_int
           (float_mul (true_divide (number_of_edges (graph e)) (number_of_nodes (graph e)))
              (beta e)))))"

subsection \<open>Target selection\<close>

text \<open>
  \<open>min(xs, key=f)\<close> keeps the first element whose key is smallest; \<open>max(xs)\<close> and
  \<open>min\<close> raise \<open>ValueError\<close> on an empty list; \<open>xs.index(x)\<close> is the first position
  of \<open>x\<close>. In \<open>fixed_community\<close> the product of the largest size and
  \<open>preferred_community_size\<close> is a float product, rounded before \<open>np.ceil\<close>.
\<close>

definition py_min_key :: "('a \<Rightarrow> int) \<Rightarrow> 'a list \<Rightarrow> error + 'a" where
  "py_min_key f xs =
     (case xs of
        [] \<Rightarrow> Inl ValueError
      | x # ys \<Rightarrow> Inr (foldl (\<lambda>best y. if f y < f best then y else best) x ys))"

definition py_max :: "int list \<Rightarrow> error + int" where
  "py_max xs = (case xs of [] \<Rightarrow> Inl ValueError | x # ys \<Rightarrow> Inr (foldl max x ys))"

fun py_index :: "'a \<Rightarrow> 'a list \<Rightarrow> nat option" where
  "py_index x [] = None"
| "py_index x (y # ys) = (if y = x then Some 0 else map_option Suc (py_index x ys))"

definition fixed_community :: "env \<Rightarrow> error + env" where
  "fixed_community e =
     (let communities = original_community_structure e;
          communities_len = map (\<lambda>c. int (length c)) communities
      in case py_max communities_len of
           Inl err \<Rightarrow> Inl err
         | Inr m \<Rightarrow>
             (let preferred_size =
                    float_to_int (np_ceil (float_mul (double_of_int m) (preferred_community_size e))) in
              case py_min_key (\<lambda>x. \<bar>x - preferred_size\<bar>) communities_len of
                Inl err \<Rightarrow> Inl err
              | Inr closest \<Rightarrow>
                  (case py_index closest communities_len of
                     None \<Rightarrow> Inl ValueError
                   | Some i \<Rightarrow>
                       if i < length communities then Inr (e\<lparr>community_target := communities ! i\<rparr>)
                       else Inl IndexError)))"

text \<open>
  Randomness. The generator is re-seeded from the clock before most draws, so a call's
  random choices are arbitrary: they are supplied as a list of draws, \<open>random.choice\<close>
  taking the next draw \<open>r\<close> and returning the element at position \<open>r mod len\<close>. A
  resampling loop takes one draw for each iteration; a call that has used all its draws
  without leaving its loop is \<open>Starved\<close> (it has not returned yet).
\<close>

datatype 'a outcome = Return 'a | Raise error | Starved

definition pick :: "'a list \<Rightarrow> nat \<Rightarrow> 'a" where
  "pick xs r = xs ! (r mod length xs)"

definition random_choice :: "'a list \<Rightarrow> nat list \<Rightarrow> ('a \<times> nat list) outcome" where
  "random_choice xs draws =
     (if xs = [] then Raise IndexError
      else case draws of [] \<Rightarrow> Starved | r # rs \<Rightarrow> Return (pick xs r, rs))"

text \<open>
  The loop of \<open>change_target_node\<close>: its test \<open>self.node_target == old_node\<close> holds on
  entry, so one node is always drawn. \<open>old_node\<close> is \<open>None\<close> in the constructor's call.
\<close>

fun resample_node :: "int list \<Rightarrow> int option \<Rightarrow> nat list \<Rightarrow> (int \<times> nat list) outcome" where
  "resample_node community old_node [] = (if community = [] then Raise IndexError else Starved)"
| "resample_node community old_node (r # rs) =
     (if community = [] then Raise IndexError
      else if Some (pick community r) = old_node then resample_node community old_node rs
      else Return (pick community r, rs))"

definition change_target_node :: "env \<Rightarrow> int option \<Rightarrow> nat list \<Rightarrow> (env \<times> nat list) outcome" where
  "change_target_node e node_target_arg draws =
     (case node_target_arg of
        None \<Rightarrow>
          (case resample_node (community_target e) (Some (node_target e)) draws of
             Return (n, rs) \<Rightarrow> Return (e\<lparr>node_target := n\<rparr>, rs)
           | Raise err \<Rightarrow> Raise err
           | Starved \<Rightarrow> Starved)
      | Some n \<Rightarrow> Return (e\<lparr>node_target := n\<rparr>, draws))"

fun random_community_loop ::
  "int list list \<Rightarrow> int list \<Rightarrow> nat list \<Rightarrow> (int list \<times> nat list) outcome" where
  "random_community_loop communities old_community [] =
     (if communities = [] then Raise IndexError else Starved)"
| "random_community_loop communities old_community (r # rs) =
     (if communities = [] then Raise IndexError
      else if (length (pick communities r) > 1 \<and> pick communities r \<noteq> old_community)
              \<or> length communities < 2
      then Return (pick communities r, rs)
      else random_community_loop communities old_community rs)"

definition random_community :: "env \<Rightarrow> nat list \<Rightarrow> (env \<times> nat list) outcome" where
  "random_community e draws =
     (case random_community_loop (original_community_structure e) (community_target e) draws of
        Return (c, rs) \<Rightarrow> Return (e\<lparr>community_target := c\<rparr>, rs)
      | Raise err \<Rightarrow> Raise err
      | Starved \<Rightarrow> Starved)"

definition distribution_community :: "env \<Rightarrow> real \<Rightarrow> nat list \<Rightarrow> (env \<times> nat list) outcome" where
  "distribution_community e min_len draws =
     (let communities = original_community_structure e in
      if length communities < 10 then
        (case random_choice communities draws of
           Return (c, rs) \<Rightarrow> Return (e\<lparr>community_target := c\<rparr>, rs)
         | Raise err \<Rightarrow> Raise err
         | Starved \<Rightarrow> Starved)
      else
        (let avg_nodes = real (sum_list (map length communities)) / real (length communities);
             max_nodes = foldl max 0 (map length communities);
             max_len = 0.8 * real max_nodes;
             min_len = (if avg_nodes < min_len then 2 else min_len);
             filtered_communities =
               filter (\<lambda>c. real (length c) > min_len \<and> real (length c) < max_len \<and> length c < 5000)
                 communities
         in case random_choice filtered_communities draws of
              Return (c, rs) \<Rightarrow> Return (e\<lparr>community_target := c\<rparr>, rs)
            | Raise err \<Rightarrow> Raise err
            | Starved \<Rightarrow> Starved))"

text \<open>
  \<open>HyperParams.COMMUNITY_CHANGE_METHOD\<close> is a constant defined outside the
  environment's source: it is the parameter \<open>method\<close>.
\<close>

definition change_target_community ::
  "int \<Rightarrow> env \<Rightarrow> int list option \<Rightarrow> int option \<Rightarrow> nat list \<Rightarrow> (env \<times> nat list) outcome" where
  "change_target_community method e community node_target_arg draws =
     (case (case community of
              None \<Rightarrow>
                if method = 1 then random_community e draws
                else if method = 2 then
                  (case fixed_community e of Inl err \<Rightarrow> Raise err | Inr e' \<Rightarrow> Return (e', draws))
                else if method = 3 then distribution_community e 10 draws
                else Raise ValueError
            | Some c \<Rightarrow> Return (e\<lparr>community_target := c\<rparr>, draws)) of
        Return (e', rs) \<Rightarrow> change_target_node e' node_target_arg rs
      | Raise err \<Rightarrow> Raise err
      | Starved \<Rightarrow> Starved)"

text \<open>
  The fixed-size selection as the specification words it, for comparison with
  \<open>fixed_community\<close>: the first community, in the size-sorted order of the
  communities, whose size is closest to the ceiling of the preferred fraction times the
  largest size. The fraction is the real number that the configuration names (such as
  \<open>0.28\<close>), and the product is exact. The parameter \<open>order\<close> is the sorting:
  ascending as \<open>sorted(communities, key=len)\<close> of \<open>set_communities\<close>, or descending;
  both are stable, as Python's \<open>sorted\<close> is.
\<close>

definition size_sorted_ascending :: "int list list \<Rightarrow> int list list" where
  "size_sorted_ascending cs = sort_key length cs"

definition size_sorted_descending :: "int list list \<Rightarrow> int list list" where
  "size_sorted_descending cs = sort_key (\<lambda>c. - int (length c)) cs"

definition fixed_community_size_sorted ::
  "(int list list \<Rightarrow> int list list) \<Rightarrow> real \<Rightarrow> env \<Rightarrow> error + int list" where
  "fixed_community_size_sorted order fraction e =
     (case py_max (map (\<lambda>c. int (length c)) (original_community_structure e)) of
        Inl err \<Rightarrow> Inl err
      | Inr m \<Rightarrow>
          py_min_key
            (\<lambda>c. \<bar>int (length c) - \<lceil>real_of_int m * fraction\<rceil>\<bar>)
            (order (original_community_structure e)))"

subsection \<open>Consistency of the action sets, and episodes\<close>

text \<open>
  The action sets are consistent with the working graph when no pair is in both sets,
  no pair is stored together with its reverse (in particular there is no self-pair), and
  every pair of \<open>REMOVE\<close> is an edge of the graph. \<open>reset\<close> establishes this and
  \<open>apply_action\<close> keeps it.
\<close>

definition actions_consistent :: "env \<Rightarrow> bool" where
  "actions_consistent e \<longleftrightarrow>
     ADD (possible_actions e) \<inter> REMOVE (possible_actions e) = {}
     \<and> (\<forall>p \<in> ADD (possible_actions e) \<union> REMOVE (possible_actions e).
           (snd p, fst p) \<notin> ADD (possible_actions e) \<union> REMOVE (possible_actions e))
     \<and> (\<forall>p \<in> REMOVE (possible_actions e). has_edge (graph e) (fst p) (snd p))"

text \<open>
  \<open>episode K e e'\<close>: the environment \<open>e'\<close> is reached from \<open>e\<close> by calls of
  \<open>step\<close>, \<open>act\<close> and \<open>apply_action\<close> that return, with no \<open>reset\<close> and no change of
  target in between.
\<close>

inductive episode :: "collaborators \<Rightarrow> env \<Rightarrow> env \<Rightarrow> bool" for K :: collaborators and e :: env where
  episode_start: "episode K e e"
| episode_step: "episode K e e1 \<Longrightarrow> step K e1 a = Inr (e2, out) \<Longrightarrow> episode K e e2"
| episode_act: "episode K e e1 \<Longrightarrow> act K e1 a = Inr (e2, out') \<Longrightarrow> episode K e e2"
| episode_apply_action: "episode K e e1 \<Longrightarrow> apply_action e1 a = Inr (e2, b) \<Longrightarrow> episode K e e2"

subsection \<open>Example environments\<close>

text \<open>
  Ten nodes in the two communities \<open>{0..4}\<close> and \<open>{5..9}\<close>, eight edges, target node
  \<open>0\<close> in the target community \<open>{0..4}\<close>, \<open>beta = 10\<close>. The action sets and the
  edge budget are those that \<open>get_possible_actions\<close> and \<open>get_edge_budget\<close> compute
  for it.
\<close>

definition example_graph :: nx_graph where
  "example_graph =
     \<lparr>nx_nodes = [0, 1, 2, 3, 4, 5, 6, 7, 8, 9],
      nx_adj = [((0, 1), 1), ((1, 0), 1), ((0, 2), 1), ((2, 0), 1), ((1, 2), 1), ((2, 1), 1),
                ((3, 4), 1), ((4, 3), 1), ((4, 5), 1), ((5, 4), 1), ((5, 6), 1), ((6, 5), 1),
                ((6, 7), 1), ((7, 6), 1), ((8, 9), 1), ((9, 8), 1)]\<rparr>"

definition example_env :: env where
  "example_env =
     \<lparr>env_name = ''example'',
      graph = example_graph,
      original_graph = example_graph,
      old_graph = None,
      beta = double_of_int 10,
      tau = 1 / 2,
      lambda_metric = Some (1 / 10),
      alpha_metric = Some (7 / 10),
      old_penalty_value = 0,
      original_community_structure = [[0, 1, 2, 3, 4], [5, 6, 7, 8, 9]],
      old_community_structure = [[0, 1, 2, 3, 4], [5, 6, 7, 8, 9]],
      new_community_structure = None,
      preferred_community_size = round_ratio 1 2,
      community_target = [0, 1, 2, 3, 4],
      node_target = 0,
      edge_budget = 8,
      used_edge_budget = 0,
      max_steps = 16,
      stop_episode = False,
      rewards = 0,
      old_rewards = 0,
      possible_actions = \<lparr>ADD = {(0, 5), (0, 6), (0, 7), (0, 8), (0, 9)}, REMOVE = {(0, 1), (0, 2)}\<rparr>,
      len_add_actions = 5\<rparr>"

text \<open>The example environment after \<open>act\<close> has added the edge between 0 and 7.\<close>

definition example_env_acted :: env where
  "example_env_acted =
     example_env\<lparr>graph := add_edge example_graph 0 7 1,
       possible_actions := \<lparr>ADD = {(0, 5), (0, 6), (0, 8), (0, 9)}, REMOVE = {(0, 1), (0, 2)}\<rparr>,
       used_edge_budget := 1, stop_episode := False\<rparr>"

text \<open>
  Two states inside \<open>step\<close>, after the detection has run on the changed graph: one
  where the target node is found alone, one where the structure is the previous one.
\<close>

definition example_env_detected :: env where
  "example_env_detected =
     example_env_acted\<lparr>old_graph := Some example_graph,
       new_community_structure := Some [[0], [1, 2, 3, 4], [5, 6, 7, 8, 9]]\<rparr>"

definition example_env_same :: env where
  "example_env_same =
     example_env_acted\<lparr>old_graph := Some example_graph,
       new_community_structure := Some [[0, 1, 2, 3, 4], [5, 6, 7, 8, 9]]\<rparr>"

text \<open>
  A graph with 20 nodes and 40 edges: every node \<open>i\<close> is joined to \<open>i + 1\<close> and to
  \<open>i + 2\<close> modulo 20.
\<close>

definition ring_graph :: nx_graph where
  "ring_graph =
     \<lparr>nx_nodes = [0..19],
      nx_adj = concat (map (\<lambda>i. [((i, (i + 1) mod 20), 1), (((i + 1) mod 20, i), 1),
                                   ((i, (i + 2) mod 20), 1), (((i + 2) mod 20, i), 1)]) [0..19])\<rparr>"

text \<open>
  Three environments whose action sets hold a pair more than once, in both sets or in
  both orientations, to tell the order of the tests of \<open>apply_action\<close> apart. No
  \<open>reset\<close> produces such sets.
\<close>

definition order_env_add :: env where
  "order_env_add =
     example_env\<lparr>possible_actions := \<lparr>ADD = {(0, 1), (1, 0)}, REMOVE = {(0, 1)}\<rparr>\<rparr>"

definition order_env_reversed :: env where
  "order_env_reversed =
     example_env\<lparr>possible_actions := \<lparr>ADD = {(1, 0)}, REMOVE = {(0, 1), (1, 0)}\<rparr>\<rparr>"

definition order_env_remove :: env where
  "order_env_remove =
     example_env\<lparr>possible_actions := \<lparr>ADD = {}, REMOVE = {(0, 1), (1, 0)}\<rparr>\<rparr>"

text \<open>
  Two environments for the rounding in \<open>get_edge_budget\<close>: five nodes, seven edges and
  \<open>beta = 45\<close>; and, under the name \<open>kar\<close>, a path of three nodes with \<open>beta = 9\<close>.
  Only the name, the graph and \<open>beta\<close> matter to \<open>get_edge_budget\<close>; the other fields
  are those of the example environment.
\<close>

definition five_node_graph :: nx_graph where
  "five_node_graph =
     \<lparr>nx_nodes = [0, 1, 2, 3, 4],
      nx_adj = [((0, 1), 1), ((1, 0), 1), ((1, 2), 1), ((2, 1), 1), ((2, 3), 1), ((3, 2), 1),
                ((3, 4), 1), ((4, 3), 1), ((4, 0), 1), ((0, 4), 1), ((0, 2), 1), ((2, 0), 1),
                ((1, 3), 1), ((3, 1), 1)]\<rparr>"

definition three_node_path :: nx_graph where
  "three_node_path =
     \<lparr>nx_nodes = [0, 1, 2],
      nx_adj = [((0, 1), 1), ((1, 0), 1), ((1, 2), 1), ((2, 1), 1)]\<rparr>"

definition budget_env_five :: env where
  "budget_env_five =
     example_env\<lparr>env_name := ''five'', graph := five_node_graph,
       original_graph := five_node_graph, beta := double_of_int 45\<rparr>"

definition budget_env_kar :: env where
  "budget_env_kar =
     example_env\<lparr>env_name := ''kar'', graph := three_node_path,
       original_graph := three_node_path, beta := double_of_int 9\<rparr>"

text \<open>
  An environment for the rounding in \<open>fixed_community\<close>: communities of the sizes 25,
  8 and 7, and the preferred fraction \<open>0.28\<close>, that is the double nearest to \<open>28 / 100\<close>.
  Only the community structure and the fraction matter to \<open>fixed_community\<close>.
\<close>

definition rounding_env :: env where
  "rounding_env =
     example_env\<lparr>original_community_structure := [[0..24], [25..32], [33..39]],
       preferred_community_size := round_ratio 28 100\<rparr>"

text \<open>
  Two environments whose communities have the sizes 4, 3, 1, 1, 1: with the preferred
  fraction \<open>1/2\<close> the preferred size is 2, and the sizes 3 and 1 are equally close to
  it. The communities are listed by decreasing size in the first and by increasing size
  in the second.
\<close>

definition tie_env_descending :: env where
  "tie_env_descending =
     example_env\<lparr>original_community_structure := [[0, 1, 2, 3], [4, 5, 6], [7], [8], [9]]\<rparr>"

definition tie_env_ascending :: env where
  "tie_env_ascending =
     example_env\<lparr>original_community_structure := [[7], [8], [9], [4, 5, 6], [0, 1, 2, 3]]\<rparr>"

text \<open>
  Collaborators for the examples: a detection that always finds the target node alone,
  a mutual information that is \<open>1\<close> on equal structures, and constant similarities.
\<close>

definition example_collaborators :: collaborators where
  "example_collaborators =
     \<lparr>compute_community = (\<lambda>g. [[0], [1, 2, 3, 4], [5, 6, 7, 8, 9]]),
      normalized_mutual_information = (\<lambda>a b. if a = b then 1 else 1 / 2),
      community_similarity = (\<lambda>a b. if a = b then 1 else 1 / 4),
      graph_similarity = (\<lambda>g og. 1 / 5)\<rparr>"

section \<open>Properties\<close>

subsection \<open>Double-precision numbers\<close>

text \<open>
  Reference values: the doubles of \<open>1\<close>, \<open>10\<close>, \<open>0.5\<close>, \<open>0.28\<close>, \<open>0.8\<close>, \<open>7 / 5\<close>
  and \<open>2 / 3\<close>, and the results of the products and sums used below.
\<close>

lemma double_values:
  "double_of_int 1 = Double 4503599627370496 (- 52)"
  "double_of_int 10 = Double 5629499534213120 (- 49)"
  "double_of_int 45 = Double 6333186975989760 (- 47)"
  "double_of_int 9 = Double 5066549580791808 (- 49)"
  "round_ratio 1 2 = Double 4503599627370496 (- 53)"
  "round_ratio 28 100 = Double 5044031582654956 (- 54)"
  "round_ratio 8 10 = Double 7205759403792794 (- 53)"
  "true_divide 7 5 = Double 6305039478318694 (- 52)"
  "true_divide 2 3 = Double 6004799503160661 (- 53)"
  by code_simp+

lemma budget_values:
  "float_to_int (float_mul (true_divide 8 10) (double_of_int 10)) = 8"
  "float_to_int (float_mul (float_add (true_divide 8 10) (double_of_int 1)) (double_of_int 10)) = 18"
  "float_to_int (float_mul (true_divide 40 20) (double_of_int 10)) = 20"
  "float_to_int (float_mul (true_divide 7 5) (double_of_int 45)) = 62"
  "float_to_int (float_mul (float_add (true_divide 2 3) (double_of_int 1)) (double_of_int 9)) = 14"
  by code_simp+

lemma preferred_size_values:
  "float_to_int (np_ceil (float_mul (double_of_int 5) (round_ratio 1 2))) = 3"
  "float_to_int (np_ceil (float_mul (double_of_int 4) (round_ratio 1 2))) = 2"
  "float_to_int (np_ceil (float_mul (double_of_int 25) (round_ratio 28 100))) = 8"
  "float_to_int (np_ceil (float_mul (double_of_int 5) (round_ratio 8 10))) = 4"
  by code_simp+

lemma value_of_examples:
  "value_of (double_of_int 45) = 45"
  "value_of (double_of_int 9) = 9"
  "value_of (double_of_int 10) = 10"
  "value_of (round_ratio 1 2) = 1 / 2"
  by (simp_all add: double_values value_of_def)

lemma round_half_even_nonneg:
  assumes "0 \<le> a" and "0 < b"
  shows "0 \<le> round_half_even a b"
proof -
  from assms have "0 \<le> a div b" by (simp add: pos_imp_zdiv_nonneg_iff)
  then show ?thesis by (simp add: round_half_even_def Let_def)
qed

lemma scaled_positive:
  assumes "0 < p" and "0 < q"
  shows "0 < fst (scaled p q k)" and "0 < snd (scaled p q k)"
  using assms by (simp_all add: scaled_def)

lemma round_positive_nonneg:
  assumes "0 < p" and "0 < q"
  shows "0 \<le> mantissa (round_positive p q)"
  using scaled_positive [OF assms]
  by (simp add: round_positive_def Let_def round_half_even_nonneg less_imp_le)

lemma round_ratio_nonneg:
  assumes "0 \<le> p" and "0 < q"
  shows "0 \<le> mantissa (round_ratio p q)"
proof (cases "p = 0")
  case True
  then show ?thesis by (simp add: round_ratio_def)
next
  case False
  with assms have "0 < p" by simp
  with assms(2) show ?thesis by (simp add: round_ratio_def round_positive_nonneg)
qed

lemma round_scaled_nonneg:
  assumes "0 \<le> m"
  shows "0 \<le> mantissa (round_scaled m e)"
  using assms by (simp add: round_scaled_def round_ratio_nonneg)

lemma true_divide_nonneg:
  assumes "0 \<le> a" and "0 < b"
  shows "0 \<le> mantissa (true_divide a b)"
  using assms by (simp add: true_divide_def round_ratio_nonneg)

lemma double_of_int_nonneg: "0 \<le> n \<Longrightarrow> 0 \<le> mantissa (double_of_int n)"
  by (simp add: double_of_int_def round_ratio_nonneg)

lemma float_mul_nonneg:
  assumes "0 \<le> mantissa x" and "0 \<le> mantissa y"
  shows "0 \<le> mantissa (float_mul x y)"
  using assms by (simp add: float_mul_def round_scaled_nonneg)

lemma float_add_nonneg:
  assumes "0 \<le> mantissa x" and "0 \<le> mantissa y"
  shows "0 \<le> mantissa (float_add x y)"
  using assms by (simp add: float_add_def Let_def round_scaled_nonneg)

lemma power2_not_le_zero: "\<not> (2::real) ^ n \<le> 0"
  by (simp add: not_le)

lemma value_of_nonneg_iff: "0 \<le> value_of x \<longleftrightarrow> 0 \<le> mantissa x"
  by (simp add: value_of_def zero_le_mult_iff zero_le_divide_iff power2_not_le_zero)

lemma floor_divide_power2: "\<lfloor>real_of_int m / 2 ^ n\<rfloor> = m div 2 ^ n"
  using floor_divide_of_int_eq [of m "2 ^ n", where ?'a = real] by simp

lemma value_of_integer:
  assumes "0 \<le> exponent x"
  shows "value_of x = real_of_int (mantissa x * 2 ^ nat (exponent x))"
  using assms by (simp add: value_of_def)

lemma float_to_int_floor:
  assumes "0 \<le> mantissa x"
  shows "float_to_int x = \<lfloor>value_of x\<rfloor>"
proof (cases "0 \<le> exponent x")
  case True
  show ?thesis
    unfolding value_of_integer [OF True] floor_of_int
    using True by (simp add: float_to_int_def)
next
  case False
  with assms show ?thesis
    by (simp add: float_to_int_def value_of_def floor_divide_power2)
qed

lemma float_to_int_np_ceil: "float_to_int (np_ceil x) = \<lceil>value_of x\<rceil>"
proof (cases "0 \<le> exponent x")
  case True
  show ?thesis
    unfolding value_of_integer [OF True] ceiling_of_int
    using True by (simp add: np_ceil_def float_to_int_def)
next
  case False
  have "\<lceil>real_of_int (mantissa x) / 2 ^ nat (- exponent x)\<rceil>
          = - \<lfloor>real_of_int (- mantissa x) / 2 ^ nat (- exponent x)\<rfloor>"
    by (simp add: ceiling_def)
  also have "\<dots> = - ((- mantissa x) div 2 ^ nat (- exponent x))"
    by (simp only: floor_divide_power2)
  finally show ?thesis using False
    by (simp add: np_ceil_def float_to_int_def value_of_def)
qed

text \<open>
  Rounding is correct: for a positive ratio \<open>p / q\<close> the result of
  \<open>round_positive\<close> has a mantissa of 53 bits (or is the next power of two),
  and it lies within half a unit in the last place of \<open>p / q\<close>.
\<close>

lemma bit_length_positive:
  assumes "0 < n"
  shows "bit_length n = 1 + bit_length (n div 2)"
  using assms by (subst bit_length.simps) simp

lemma bit_length_nonpositive: "n \<le> 0 \<Longrightarrow> bit_length n = 0"
  by (subst bit_length.simps) simp

lemma bit_length_bounds:
  assumes "0 < n"
  shows "1 \<le> bit_length n \<and> 2 ^ nat (bit_length n - 1) \<le> n \<and> n < 2 ^ nat (bit_length n)"
  using assms
proof (induction n rule: bit_length.induct)
  case (1 n)
  show ?case
  proof (cases "n div 2 \<le> 0")
    case True
    with "1.prems" have "n = 1" by linarith
    then show ?thesis
      by (simp add: bit_length_positive bit_length_nonpositive)
  next
    case False
    then have pos: "0 < n div 2" by simp
    with "1.IH" "1.prems" have ih: "1 \<le> bit_length (n div 2)"
      "2 ^ nat (bit_length (n div 2) - 1) \<le> n div 2"
      "n div 2 < 2 ^ nat (bit_length (n div 2))"
      by simp_all
    have bl: "bit_length n = 1 + bit_length (n div 2)"
      using "1.prems" by (rule bit_length_positive)
    have e: "nat (bit_length (n div 2)) = Suc (nat (bit_length (n div 2) - 1))"
      using ih(1) by simp
    have lower: "2 ^ nat (bit_length (n div 2)) \<le> n"
    proof -
      have "(2::int) ^ nat (bit_length (n div 2)) = 2 * 2 ^ nat (bit_length (n div 2) - 1)"
        by (simp only: e power_Suc)
      also have "\<dots> \<le> 2 * (n div 2)" using ih(2) by simp
      also have "\<dots> \<le> n" by simp
      finally show ?thesis .
    qed
    have upper: "n < 2 * 2 ^ nat (bit_length (n div 2))"
    proof -
      have "n < 2 * (n div 2 + 1)" by presburger
      also have "\<dots> \<le> 2 * 2 ^ nat (bit_length (n div 2))" using ih(3) by simp
      finally show ?thesis .
    qed
    have n1: "nat (bit_length n - 1) = nat (bit_length (n div 2))" by (simp add: bl)
    have n2: "nat (bit_length n) = Suc (nat (bit_length (n div 2)))"
      using ih(1) by (simp add: bl)
    show ?thesis
      using ih(1) lower upper by (simp add: n1 n2) (simp add: bl)
  qed
qed

lemma round_half_even_error:
  assumes "0 < b"
  shows "\<bar>real_of_int (round_half_even a b) - real_of_int a / real_of_int b\<bar> \<le> 1 / 2"
proof -
  define n where "n = a div b"
  define r where "r = a mod b"
  have a: "a = b * n + r" by (simp add: n_def r_def)
  have r: "0 \<le> r" "r < b" using assms by (simp_all add: r_def)
  have q: "real_of_int a / real_of_int b = real_of_int n + real_of_int r / real_of_int b"
    using assms by (simp add: a field_simps)
  have rb: "0 \<le> real_of_int r / real_of_int b" "real_of_int r / real_of_int b < 1"
    using r assms by simp_all
  consider (lo) "2 * r < b" | (hi) "b < 2 * r" | (tie) "2 * r = b" by linarith
  then show ?thesis
  proof cases
    case lo
    then have h: "real_of_int r / real_of_int b < 1 / 2"
      using assms by (simp add: field_simps)
    from lo have "round_half_even a b = n"
      by (simp add: round_half_even_def Let_def n_def r_def)
    with h rb show ?thesis unfolding q by simp
  next
    case hi
    then have h: "1 / 2 < real_of_int r / real_of_int b"
      using assms by (simp add: field_simps)
    from hi have "round_half_even a b = n + 1"
      by (simp add: round_half_even_def Let_def n_def r_def)
    with h rb show ?thesis unfolding q by simp
  next
    case tie
    then have h: "real_of_int r / real_of_int b = 1 / 2"
      using assms by (simp add: field_simps)
    from tie have "round_half_even a b = (if even n then n else n + 1)"
      by (simp add: round_half_even_def Let_def n_def r_def)
    then show ?thesis unfolding q h by simp
  qed
qed


lemma powr_int_nonneg:
  assumes "0 \<le> k"
  shows "2 powr real_of_int k = 2 ^ nat k"
proof -
  have "real_of_int k = real (nat k)" using assms by simp
  then show ?thesis by (simp only: powr_realpow [of 2, simplified])
qed

lemma powr_int_negative:
  assumes "k < 0"
  shows "2 powr real_of_int k = 1 / 2 ^ nat (- k)"
proof -
  have "2 powr real_of_int k = 1 / 2 powr real_of_int (- k)"
    by (simp add: powr_minus_divide)
  also have "2 powr real_of_int (- k) = 2 ^ nat (- k)"
    using assms by (intro powr_int_nonneg) simp
  finally show ?thesis .
qed

lemma value_of_powr:
  "value_of x = real_of_int (mantissa x) * 2 powr real_of_int (exponent x)"
proof (cases "0 \<le> exponent x")
  case True
  then show ?thesis by (simp add: value_of_def powr_int_nonneg)
next
  case False
  then show ?thesis by (simp add: value_of_def powr_int_negative)
qed

lemma scaled_ratio:
  assumes "0 < q"
  shows "real_of_int (fst (scaled p q k)) / real_of_int (snd (scaled p q k))
           = real_of_int p / real_of_int q / 2 powr real_of_int k"
proof (cases "0 \<le> k")
  case True
  then show ?thesis by (simp add: scaled_def powr_int_nonneg)
next
  case False
  then show ?thesis by (simp add: scaled_def powr_int_negative)
qed

lemma bit_length_powr:
  assumes "0 < n"
  shows "2 powr (real_of_int (bit_length n) - 1) \<le> real_of_int n"
    and "real_of_int n < 2 powr real_of_int (bit_length n)"
proof -
  note B = bit_length_bounds [OF assms]
  have "2 powr (real_of_int (bit_length n) - 1) = 2 powr real_of_int (bit_length n - 1)"
    by simp
  also have "\<dots> = 2 ^ nat (bit_length n - 1)"
    using B by (intro powr_int_nonneg) simp
  also have "\<dots> = real_of_int (2 ^ nat (bit_length n - 1))" by simp
  also have "\<dots> \<le> real_of_int n" using B by (simp only: of_int_le_iff)
  finally show "2 powr (real_of_int (bit_length n) - 1) \<le> real_of_int n" .
  have "real_of_int n < real_of_int (2 ^ nat (bit_length n))"
    using B by (simp only: of_int_less_iff)
  also have "\<dots> = 2 ^ nat (bit_length n)" by simp
  also have "\<dots> = 2 powr real_of_int (bit_length n)"
    using B by (intro powr_int_nonneg [symmetric]) simp
  finally show "real_of_int n < 2 powr real_of_int (bit_length n)" .
qed

lemma ratio_between_powers:
  assumes "0 < p" and "0 < q"
  shows "2 powr (real_of_int (bit_length p - bit_length q) - 1) < real_of_int p / real_of_int q"
    and "real_of_int p / real_of_int q < 2 powr (real_of_int (bit_length p - bit_length q) + 1)"
proof -
  note P = bit_length_powr [OF assms(1)]
  note Q = bit_length_powr [OF assms(2)]
  have qpos: "0 < real_of_int q" using assms(2) by simp
  have ppos: "0 < real_of_int p" using assms(1) by simp
  have "2 powr (real_of_int (bit_length p - bit_length q) - 1)
          = 2 powr (real_of_int (bit_length p) - 1) / 2 powr real_of_int (bit_length q)"
    by (simp add: powr_diff [symmetric] algebra_simps)
  also have "\<dots> \<le> real_of_int p / 2 powr real_of_int (bit_length q)"
    using P(1) by (simp add: divide_right_mono)
  also have "\<dots> < real_of_int p / real_of_int q"
    using Q(2) qpos ppos by (simp add: divide_strict_left_mono)
  finally show "2 powr (real_of_int (bit_length p - bit_length q) - 1) < real_of_int p / real_of_int q" .
  have "real_of_int p / real_of_int q < 2 powr real_of_int (bit_length p) / real_of_int q"
    using P(2) qpos by (simp add: divide_strict_right_mono)
  also have "\<dots> \<le> 2 powr real_of_int (bit_length p) / 2 powr (real_of_int (bit_length q) - 1)"
    using Q(1) qpos by (intro divide_left_mono mult_pos_pos) simp_all
  also have "\<dots> = 2 powr (real_of_int (bit_length p - bit_length q) + 1)"
    by (simp add: powr_diff [symmetric] algebra_simps)
  finally show "real_of_int p / real_of_int q < 2 powr (real_of_int (bit_length p - bit_length q) + 1)" .
qed


lemma round_positive_nearest:
  assumes "0 < p" and "0 < q"
  shows "2 ^ 52 \<le> mantissa (round_positive p q)"
    and "mantissa (round_positive p q) \<le> 2 ^ 53"
    and "\<bar>value_of (round_positive p q) - real_of_int p / real_of_int q\<bar>
           \<le> 2 powr real_of_int (exponent (round_positive p q)) / 2"
proof -
  define x where "x = real_of_int p / real_of_int q"
  define k0 where "k0 = bit_length p - bit_length q - 53"
  define k where "k = (if fst (scaled p q k0) < snd (scaled p q k0) * 2 ^ 53 then k0 else k0 + 1)"
  define y where "y = real_of_int (fst (scaled p q k)) / real_of_int (snd (scaled p q k))"
  define n where "n = round_half_even (fst (scaled p q k)) (snd (scaled p q k))"
  have rp: "round_positive p q = Double n k"
    by (simp add: round_positive_def Let_def n_def k_def k0_def)
  have sp: "0 < snd (scaled p q j)" for j
    using assms by (rule scaled_positive)
  have y0: "real_of_int (fst (scaled p q k0)) / real_of_int (snd (scaled p q k0))
              = x / 2 powr real_of_int k0"
    unfolding x_def using assms(2) by (rule scaled_ratio)
  have yk: "y = x / 2 powr real_of_int k"
    unfolding y_def x_def using assms(2) by (rule scaled_ratio)
  note R = ratio_between_powers [OF assms, folded x_def]
  have lo0: "2 powr 52 < x / 2 powr real_of_int k0"
  proof -
    have "2 powr 52 = 2 powr (real_of_int (bit_length p - bit_length q) - 1) / 2 powr real_of_int k0"
      by (simp add: powr_diff [symmetric] k0_def algebra_simps)
    also have "\<dots> < x / 2 powr real_of_int k0"
      using R(1) by (simp add: divide_strict_right_mono)
    finally show ?thesis .
  qed
  have hi0: "x / 2 powr real_of_int k0 < 2 powr 54"
  proof -
    have "x / 2 powr real_of_int k0
            < 2 powr (real_of_int (bit_length p - bit_length q) + 1) / 2 powr real_of_int k0"
      using R(2) by (simp add: divide_strict_right_mono)
    also have "\<dots> = 2 powr 54"
      by (simp add: powr_diff [symmetric] k0_def algebra_simps)
    finally show ?thesis .
  qed
  have test: "fst (scaled p q k0) < snd (scaled p q k0) * 2 ^ 53
                \<longleftrightarrow> x / 2 powr real_of_int k0 < 2 ^ 53"
  proof -
    have "fst (scaled p q k0) < snd (scaled p q k0) * 2 ^ 53
            \<longleftrightarrow> real_of_int (fst (scaled p q k0)) < real_of_int (snd (scaled p q k0) * 2 ^ 53)"
      by (simp only: of_int_less_iff)
    also have "\<dots> \<longleftrightarrow> real_of_int (fst (scaled p q k0)) / real_of_int (snd (scaled p q k0)) < 2 ^ 53"
      using sp [of k0] by (simp add: field_simps)
    finally show ?thesis by (simp only: y0)
  qed
  have p52: "(2::real) powr 52 = 2 ^ 52" and p54: "(2::real) powr 54 = 2 ^ 54"
    using powr_realpow [of "2::real" 52] powr_realpow [of "2::real" 54] by simp_all
  have range: "2 ^ 52 \<le> y \<and> y < 2 ^ 53"
  proof (cases "fst (scaled p q k0) < snd (scaled p q k0) * 2 ^ 53")
    case True
    then have "k = k0" by (simp add: k_def)
    with True test lo0 show ?thesis by (simp add: yk p52)
  next
    case False
    then have kk: "k = k0 + 1" by (simp add: k_def)
    have "2 powr real_of_int k = 2 * 2 powr real_of_int k0"
      by (simp add: kk powr_add)
    then have "y = x / 2 powr real_of_int k0 / 2" by (simp add: yk)
    with False test hi0 show ?thesis by (simp add: p54)
  qed
  have err: "\<bar>real_of_int n - y\<bar> \<le> 1 / 2"
    unfolding n_def y_def using sp [of k] by (rule round_half_even_error)
  have near: "y - 1 / 2 \<le> real_of_int n" "real_of_int n \<le> y + 1 / 2"
    using err by linarith+
  have c52: "real_of_int (2 ^ 52 - 1) = 2 ^ 52 - 1" and c53: "real_of_int (2 ^ 53 + 1) = 2 ^ 53 + 1"
    by simp_all
  have "real_of_int (2 ^ 52 - 1) < real_of_int n"
    unfolding c52 using near(1) range by linarith
  then have "(2::int) ^ 52 - 1 < n" by (simp only: of_int_less_iff)
  then show "2 ^ 52 \<le> mantissa (round_positive p q)" by (simp add: rp)
  have "real_of_int n < real_of_int (2 ^ 53 + 1)"
    unfolding c53 using near(2) range by linarith
  then have "n < (2::int) ^ 53 + 1" by (simp only: of_int_less_iff)
  then show "mantissa (round_positive p q) \<le> 2 ^ 53" by (simp add: rp)
  have "value_of (round_positive p q) - x = (real_of_int n - y) * 2 powr real_of_int k"
    by (simp add: value_of_powr rp yk algebra_simps)
  then have "\<bar>value_of (round_positive p q) - x\<bar> = \<bar>real_of_int n - y\<bar> * 2 powr real_of_int k"
    by (simp add: abs_mult)
  also have "\<dots> \<le> 1 / 2 * 2 powr real_of_int k"
    using err by (intro mult_right_mono) simp_all
  finally show "\<bar>value_of (round_positive p q) - real_of_int p / real_of_int q\<bar>
           \<le> 2 powr real_of_int (exponent (round_positive p q)) / 2"
    by (simp add: rp x_def)
qed

subsection \<open>Edges of the graph\<close>

lemma has_edge_add_edge:
  "has_edge (add_edge g u v w) a b \<longleftrightarrow> has_edge g a b \<or> (a, b) = (u, v) \<or> (a, b) = (v, u)"
  by (auto simp: has_edge_def add_edge_def update_conv')

lemma remove_edge_Inr:
  "remove_edge g u v = Inr g' \<longleftrightarrow>
     has_edge g u v \<and> g' = g\<lparr>nx_adj := AList.delete (v, u) (AList.delete (u, v) (nx_adj g))\<rparr>"
  by (auto simp: remove_edge_def has_edge_def)

lemma remove_edge_Inl:
  "remove_edge g u v = Inl err \<longleftrightarrow> \<not> has_edge g u v \<and> err = NetworkXError"
  by (auto simp: remove_edge_def has_edge_def)

lemma has_edge_remove_edge:
  "remove_edge g u v = Inr g' \<Longrightarrow>
     has_edge g' a b \<longleftrightarrow> has_edge g a b \<and> (a, b) \<noteq> (u, v) \<and> (a, b) \<noteq> (v, u)"
  by (auto simp: remove_edge_Inr has_edge_def delete_conv')

subsection \<open>The loop of \<open>get_possible_actions\<close>\<close>

lemma stored_no_reverse:
  assumes "stored_from_target e pa" and "v \<noteq> node_target e"
  shows "(v, node_target e) \<notin> REMOVE pa" and "(v, node_target e) \<notin> ADD pa"
  using assms by (force simp: stored_from_target_def)+

lemma visit_node_REMOVE:
  assumes "stored_from_target e pa"
  shows "REMOVE (visit_node e v pa) =
           REMOVE pa \<union> (if v \<noteq> node_target e \<and> node_target e \<in> set (community_target e)
                              \<and> v \<in> set (community_target e) \<and> has_edge (graph e) (node_target e) v
                          then {(node_target e, v)} else {})"
proof (cases "v = node_target e")
  case True
  then show ?thesis by (simp add: visit_node_def)
next
  case False
  with stored_no_reverse [OF assms] show ?thesis
    by (auto simp: visit_node_def in_community_def out_community_def Let_def)
qed

lemma visit_node_ADD:
  assumes "stored_from_target e pa"
  shows "ADD (visit_node e v pa) =
           ADD pa \<union> (if v \<noteq> node_target e
                           \<and> (node_target e \<in> set (community_target e)) \<noteq> (v \<in> set (community_target e))
                           \<and> \<not> has_edge (graph e) (node_target e) v
                       then {(node_target e, v)} else {})"
proof (cases "v = node_target e")
  case True
  then show ?thesis by (simp add: visit_node_def)
next
  case False
  with stored_no_reverse [OF assms] show ?thesis
    by (auto simp: visit_node_def in_community_def out_community_def Let_def)
qed

lemma visit_node_stored:
  assumes "stored_from_target e pa"
  shows "stored_from_target e (visit_node e v pa)"
  using assms
  by (auto simp: visit_node_def stored_from_target_def Let_def)

lemma fold_visit_node_REMOVE:
  assumes "stored_from_target e pa"
  shows "REMOVE (fold (visit_node e) ns pa) =
           REMOVE pa \<union> {(node_target e, v) | v. v \<in> set ns \<and> v \<noteq> node_target e
                              \<and> node_target e \<in> set (community_target e)
                              \<and> v \<in> set (community_target e) \<and> has_edge (graph e) (node_target e) v}"
  using assms
proof (induction ns arbitrary: pa)
  case Nil
  then show ?case by simp
next
  case (Cons n ns)
  have st: "stored_from_target e (visit_node e n pa)"
    using Cons.prems by (rule visit_node_stored)
  have "REMOVE (fold (visit_node e) (n # ns) pa) = REMOVE (fold (visit_node e) ns (visit_node e n pa))"
    by simp
  also note Cons.IH [OF st]
  also note visit_node_REMOVE [OF Cons.prems]
  finally show ?case by auto
qed

lemma fold_visit_node_ADD:
  assumes "stored_from_target e pa"
  shows "ADD (fold (visit_node e) ns pa) =
           ADD pa \<union> {(node_target e, v) | v. v \<in> set ns \<and> v \<noteq> node_target e
                           \<and> (node_target e \<in> set (community_target e)) \<noteq> (v \<in> set (community_target e))
                           \<and> \<not> has_edge (graph e) (node_target e) v}"
  using assms
proof (induction ns arbitrary: pa)
  case Nil
  then show ?case by simp
next
  case (Cons n ns)
  have st: "stored_from_target e (visit_node e n pa)"
    using Cons.prems by (rule visit_node_stored)
  have "ADD (fold (visit_node e) (n # ns) pa) = ADD (fold (visit_node e) ns (visit_node e n pa))"
    by simp
  also note Cons.IH [OF st]
  also note visit_node_ADD [OF Cons.prems]
  finally show ?case by auto
qed

lemma get_possible_actions_sets:
  "REMOVE (get_possible_actions e) =
     {(node_target e, v) | v. v \<in> set (nx_nodes (graph e)) \<and> v \<noteq> node_target e
        \<and> node_target e \<in> set (community_target e)
        \<and> v \<in> set (community_target e) \<and> has_edge (graph e) (node_target e) v}"
  "ADD (get_possible_actions e) =
     {(node_target e, v) | v. v \<in> set (nx_nodes (graph e)) \<and> v \<noteq> node_target e
        \<and> (node_target e \<in> set (community_target e)) \<noteq> (v \<in> set (community_target e))
        \<and> \<not> has_edge (graph e) (node_target e) v}"
  by (simp_all add: get_possible_actions_def stored_from_target_def
        fold_visit_node_REMOVE fold_visit_node_ADD)

subsection \<open>The example environment\<close>

lemma example_has_edge: "has_edge example_graph 0 1" "\<not> has_edge example_graph 0 7"
  by (simp_all add: has_edge_def example_graph_def)

lemma example_env_fields:
  "node_target example_env = 0" "community_target example_env = [0, 1, 2, 3, 4]"
  "graph example_env = example_graph"
  by (simp_all add: example_env_def)

lemma example_possible_actions_computed:
  "get_possible_actions example_env = possible_actions example_env"
  by (simp add: get_possible_actions_def visit_node_def in_community_def out_community_def
      has_edge_def example_env_def example_graph_def insert_commute)

lemma example_edge_budget: "get_edge_budget example_env = Inr (edge_budget example_env)"
  by (simp add: get_edge_budget_def number_of_nodes_def number_of_edges_def budget_values
      example_env_def example_graph_def)

subsection \<open>The possible actions\<close>

text \<open>
  Claim C4. For every environment, \<open>get_possible_actions\<close> returns two disjoint sets.
  Every stored pair starts at the target node \<open>u\<close>, ends at another node of the graph,
  and is never stored together with its reverse, so there is no self-pair and each
  unordered pair has one orientation. For every node \<open>v\<close> of the graph other than
  \<open>u\<close>: the pair of \<open>u\<close> and \<open>v\<close> is in \<open>REMOVE\<close> exactly when both are in the target
  community and the edge exists, and in \<open>ADD\<close> exactly when one of the two is in the
  target community, the other is not, and the edge does not exist.
\<close>

theorem get_possible_actions_partition:
  "ADD (get_possible_actions e) \<inter> REMOVE (get_possible_actions e) = {}
   \<and> (\<forall>a b. (a, b) \<in> ADD (get_possible_actions e) \<union> REMOVE (get_possible_actions e) \<longrightarrow>
          a = node_target e \<and> b \<in> set (nx_nodes (graph e)) \<and> a \<noteq> b
          \<and> (b, a) \<notin> ADD (get_possible_actions e) \<union> REMOVE (get_possible_actions e))
   \<and> (\<forall>v \<in> set (nx_nodes (graph e)). v \<noteq> node_target e \<longrightarrow>
          (((node_target e, v) \<in> REMOVE (get_possible_actions e)
              \<or> (v, node_target e) \<in> REMOVE (get_possible_actions e)) \<longleftrightarrow>
             node_target e \<in> set (community_target e) \<and> v \<in> set (community_target e)
             \<and> has_edge (graph e) (node_target e) v)
        \<and> (((node_target e, v) \<in> ADD (get_possible_actions e)
              \<or> (v, node_target e) \<in> ADD (get_possible_actions e)) \<longleftrightarrow>
             (node_target e \<in> set (community_target e)) \<noteq> (v \<in> set (community_target e))
             \<and> \<not> has_edge (graph e) (node_target e) v))"
proof (intro conjI)
  show "ADD (get_possible_actions e) \<inter> REMOVE (get_possible_actions e) = {}"
    by (auto simp: get_possible_actions_sets)
  show "\<forall>a b. (a, b) \<in> ADD (get_possible_actions e) \<union> REMOVE (get_possible_actions e) \<longrightarrow>
          a = node_target e \<and> b \<in> set (nx_nodes (graph e)) \<and> a \<noteq> b
          \<and> (b, a) \<notin> ADD (get_possible_actions e) \<union> REMOVE (get_possible_actions e)"
    by (auto simp: get_possible_actions_sets)
  show "\<forall>v \<in> set (nx_nodes (graph e)). v \<noteq> node_target e \<longrightarrow>
          (((node_target e, v) \<in> REMOVE (get_possible_actions e)
              \<or> (v, node_target e) \<in> REMOVE (get_possible_actions e)) \<longleftrightarrow>
             node_target e \<in> set (community_target e) \<and> v \<in> set (community_target e)
             \<and> has_edge (graph e) (node_target e) v)
        \<and> (((node_target e, v) \<in> ADD (get_possible_actions e)
              \<or> (v, node_target e) \<in> ADD (get_possible_actions e)) \<longleftrightarrow>
             (node_target e \<in> set (community_target e)) \<noteq> (v \<in> set (community_target e))
             \<and> \<not> has_edge (graph e) (node_target e) v)"
    by (auto simp: get_possible_actions_sets)
qed

theorem get_possible_actions_partition_witness:
  "(7::int) \<in> set (nx_nodes (graph example_env)) \<and> 7 \<noteq> node_target example_env
   \<and> (0, 7) \<in> ADD (get_possible_actions example_env)
   \<and> (7, 0) \<notin> ADD (get_possible_actions example_env)
   \<and> (0, 7) \<notin> REMOVE (get_possible_actions example_env)
   \<and> (0, 1) \<in> REMOVE (get_possible_actions example_env)
   \<and> ADD (get_possible_actions example_env) \<inter> REMOVE (get_possible_actions example_env) = {}"
proof -
  note P = get_possible_actions_partition [of example_env]
  have n7: "(7::int) \<in> set (nx_nodes (graph example_env))"
    and n1: "(1::int) \<in> set (nx_nodes (graph example_env))"
    by (simp_all add: example_env_def example_graph_def)
  have d: "ADD (get_possible_actions example_env) \<inter> REMOVE (get_possible_actions example_env) = {}"
    using P by (rule conjunct1)
  note S = P [THEN conjunct2, THEN conjunct1, rule_format]
  note B = P [THEN conjunct2, THEN conjunct2, THEN bspec]
  have a7: "(0, 7) \<in> ADD (get_possible_actions example_env)
            \<or> (7, 0) \<in> ADD (get_possible_actions example_env)"
    using B [OF n7] by (simp add: example_env_fields example_has_edge)
  have r1: "(0, 1) \<in> REMOVE (get_possible_actions example_env)
            \<or> (1, 0) \<in> REMOVE (get_possible_actions example_env)"
    using B [OF n1] by (simp add: example_env_fields example_has_edge)
  have no7: "(7, 0) \<notin> ADD (get_possible_actions example_env)"
    using S [of 7 0] by (auto simp: example_env_fields)
  have no1: "(1, 0) \<notin> REMOVE (get_possible_actions example_env)"
    using S [of 1 0] by (auto simp: example_env_fields)
  have nr7: "(0, 7) \<notin> REMOVE (get_possible_actions example_env)"
    using a7 no7 d by blast
  show ?thesis
    using n7 a7 r1 no7 no1 nr7 d by (simp add: example_env_fields)
qed

subsection \<open>\<open>apply_action\<close>, \<open>step\<close> and \<open>act\<close>\<close>

lemma apply_action_ADD_forward:
  assumes "(node_target e, a) \<in> ADD (possible_actions e)"
  shows "apply_action e a =
           Inr (e\<lparr>graph := add_edge (graph e) (node_target e) a 1,
                  possible_actions := (possible_actions e)
                    \<lparr>ADD := ADD (possible_actions e) - {(node_target e, a)}\<rparr>\<rparr>, 1)"
  using assms by (simp add: apply_action_def Let_def)

lemma apply_action_ADD_reversed:
  assumes "(node_target e, a) \<notin> ADD (possible_actions e)"
    and "(a, node_target e) \<in> ADD (possible_actions e)"
  shows "apply_action e a =
           Inr (e\<lparr>graph := add_edge (graph e) a (node_target e) 1,
                  possible_actions := (possible_actions e)
                    \<lparr>ADD := ADD (possible_actions e) - {(a, node_target e)}\<rparr>\<rparr>, 1)"
  using assms by (simp add: apply_action_def Let_def)

lemma apply_action_REMOVE_forward:
  assumes "(node_target e, a) \<notin> ADD (possible_actions e)"
    and "(a, node_target e) \<notin> ADD (possible_actions e)"
    and "(node_target e, a) \<in> REMOVE (possible_actions e)"
  shows "apply_action e a =
           (case remove_edge (graph e) (node_target e) a of
              Inl err \<Rightarrow> Inl err
            | Inr g \<Rightarrow> Inr (e\<lparr>graph := g,
                  possible_actions := (possible_actions e)
                    \<lparr>REMOVE := REMOVE (possible_actions e) - {(node_target e, a)}\<rparr>\<rparr>, 1))"
  using assms by (simp add: apply_action_def Let_def split: sum.split)

lemma apply_action_REMOVE_reversed:
  assumes "(node_target e, a) \<notin> ADD (possible_actions e)"
    and "(a, node_target e) \<notin> ADD (possible_actions e)"
    and "(node_target e, a) \<notin> REMOVE (possible_actions e)"
    and "(a, node_target e) \<in> REMOVE (possible_actions e)"
  shows "apply_action e a =
           (case remove_edge (graph e) a (node_target e) of
              Inl err \<Rightarrow> Inl err
            | Inr g \<Rightarrow> Inr (e\<lparr>graph := g,
                  possible_actions := (possible_actions e)
                    \<lparr>REMOVE := REMOVE (possible_actions e) - {(a, node_target e)}\<rparr>\<rparr>, 1))"
  using assms by (simp add: apply_action_def Let_def split: sum.split)

lemma apply_action_no_match:
  assumes "(node_target e, a) \<notin> ADD (possible_actions e)"
    and "(a, node_target e) \<notin> ADD (possible_actions e)"
    and "(node_target e, a) \<notin> REMOVE (possible_actions e)"
    and "(a, node_target e) \<notin> REMOVE (possible_actions e)"
  shows "apply_action e a = Inr (e, 0)"
  using assms by (simp add: apply_action_def Let_def)

text \<open>The five ways a call of \<open>apply_action\<close> can return.\<close>

lemma apply_action_returns:
  assumes "apply_action e a = Inr (e', b)"
  obtains
    (add_forward) "(node_target e, a) \<in> ADD (possible_actions e)" "b = 1"
      "e' = e\<lparr>graph := add_edge (graph e) (node_target e) a 1,
               possible_actions := (possible_actions e)
                 \<lparr>ADD := ADD (possible_actions e) - {(node_target e, a)}\<rparr>\<rparr>"
  | (add_reversed) "(node_target e, a) \<notin> ADD (possible_actions e)"
      "(a, node_target e) \<in> ADD (possible_actions e)" "b = 1"
      "e' = e\<lparr>graph := add_edge (graph e) a (node_target e) 1,
               possible_actions := (possible_actions e)
                 \<lparr>ADD := ADD (possible_actions e) - {(a, node_target e)}\<rparr>\<rparr>"
  | (remove_forward) g where "(node_target e, a) \<notin> ADD (possible_actions e)"
      "(a, node_target e) \<notin> ADD (possible_actions e)"
      "(node_target e, a) \<in> REMOVE (possible_actions e)" "b = 1"
      "remove_edge (graph e) (node_target e) a = Inr g"
      "e' = e\<lparr>graph := g,
               possible_actions := (possible_actions e)
                 \<lparr>REMOVE := REMOVE (possible_actions e) - {(node_target e, a)}\<rparr>\<rparr>"
  | (remove_reversed) g where "(node_target e, a) \<notin> ADD (possible_actions e)"
      "(a, node_target e) \<notin> ADD (possible_actions e)"
      "(node_target e, a) \<notin> REMOVE (possible_actions e)"
      "(a, node_target e) \<in> REMOVE (possible_actions e)" "b = 1"
      "remove_edge (graph e) a (node_target e) = Inr g"
      "e' = e\<lparr>graph := g,
               possible_actions := (possible_actions e)
                 \<lparr>REMOVE := REMOVE (possible_actions e) - {(a, node_target e)}\<rparr>\<rparr>"
  | (no_match) "(node_target e, a) \<notin> ADD (possible_actions e)"
      "(a, node_target e) \<notin> ADD (possible_actions e)"
      "(node_target e, a) \<notin> REMOVE (possible_actions e)"
      "(a, node_target e) \<notin> REMOVE (possible_actions e)" "b = 0" "e' = e"
proof -
  consider (af) "(node_target e, a) \<in> ADD (possible_actions e)"
    | (ar) "(node_target e, a) \<notin> ADD (possible_actions e)"
        "(a, node_target e) \<in> ADD (possible_actions e)"
    | (rf) "(node_target e, a) \<notin> ADD (possible_actions e)"
        "(a, node_target e) \<notin> ADD (possible_actions e)"
        "(node_target e, a) \<in> REMOVE (possible_actions e)"
    | (rr) "(node_target e, a) \<notin> ADD (possible_actions e)"
        "(a, node_target e) \<notin> ADD (possible_actions e)"
        "(node_target e, a) \<notin> REMOVE (possible_actions e)"
        "(a, node_target e) \<in> REMOVE (possible_actions e)"
    | (none) "(node_target e, a) \<notin> ADD (possible_actions e)"
        "(a, node_target e) \<notin> ADD (possible_actions e)"
        "(node_target e, a) \<notin> REMOVE (possible_actions e)"
        "(a, node_target e) \<notin> REMOVE (possible_actions e)"
    by blast
  then show thesis
  proof cases
    case af
    from assms [unfolded apply_action_ADD_forward [OF af]] have "b = 1"
      and "e' = e\<lparr>graph := add_edge (graph e) (node_target e) a 1,
               possible_actions := (possible_actions e)
                 \<lparr>ADD := ADD (possible_actions e) - {(node_target e, a)}\<rparr>\<rparr>"
      by simp_all
    with af show thesis by (rule add_forward)
  next
    case ar
    from assms [unfolded apply_action_ADD_reversed [OF ar]] have "b = 1"
      and "e' = e\<lparr>graph := add_edge (graph e) a (node_target e) 1,
               possible_actions := (possible_actions e)
                 \<lparr>ADD := ADD (possible_actions e) - {(a, node_target e)}\<rparr>\<rparr>"
      by simp_all
    with ar show thesis by (rule add_reversed)
  next
    case rf
    from assms [unfolded apply_action_REMOVE_forward [OF rf]]
    obtain g where "remove_edge (graph e) (node_target e) a = Inr g" "b = 1"
      "e' = e\<lparr>graph := g,
               possible_actions := (possible_actions e)
                 \<lparr>REMOVE := REMOVE (possible_actions e) - {(node_target e, a)}\<rparr>\<rparr>"
      by (cases "remove_edge (graph e) (node_target e) a") simp_all
    with rf show thesis using remove_forward by blast
  next
    case rr
    from assms [unfolded apply_action_REMOVE_reversed [OF rr]]
    obtain g where "remove_edge (graph e) a (node_target e) = Inr g" "b = 1"
      "e' = e\<lparr>graph := g,
               possible_actions := (possible_actions e)
                 \<lparr>REMOVE := REMOVE (possible_actions e) - {(a, node_target e)}\<rparr>\<rparr>"
      by (cases "remove_edge (graph e) a (node_target e)") simp_all
    with rr show thesis using remove_reversed by blast
  next
    case none
    from assms [unfolded apply_action_no_match [OF none]] have "b = 0" "e' = e"
      by simp_all
    with none show thesis by (rule no_match)
  qed
qed

lemma apply_action_budget:
  assumes "apply_action e a = Inr (e', b)"
  shows "b = 0 \<or> b = 1"
  using assms by (cases rule: apply_action_returns) simp_all

lemma apply_action_frame:
  assumes "apply_action e a = Inr (e', b)"
  shows "ADD (possible_actions e') \<subseteq> ADD (possible_actions e)"
    and "REMOVE (possible_actions e') \<subseteq> REMOVE (possible_actions e)"
    and "node_target e' = node_target e"
    and "original_graph e' = original_graph e"
    and "used_edge_budget e' = used_edge_budget e"
    and "stop_episode e' = stop_episode e"
    and "edge_budget e' = edge_budget e"
    and "old_community_structure e' = old_community_structure e"
    and "new_community_structure e' = new_community_structure e"
  using assms by (cases rule: apply_action_returns; auto)+

lemma actions_consistentD:
  assumes "actions_consistent e"
  shows "(x, y) \<in> ADD (possible_actions e) \<Longrightarrow> (x, y) \<notin> REMOVE (possible_actions e)"
    and "(x, y) \<in> ADD (possible_actions e) \<Longrightarrow> (y, x) \<notin> ADD (possible_actions e)"
    and "(x, y) \<in> ADD (possible_actions e) \<Longrightarrow> (y, x) \<notin> REMOVE (possible_actions e)"
    and "(x, y) \<in> REMOVE (possible_actions e) \<Longrightarrow> (y, x) \<notin> ADD (possible_actions e)"
    and "(x, y) \<in> REMOVE (possible_actions e) \<Longrightarrow> (y, x) \<notin> REMOVE (possible_actions e)"
    and "(x, y) \<in> REMOVE (possible_actions e) \<Longrightarrow> has_edge (graph e) x y"
proof -
  from assms have d: "ADD (possible_actions e) \<inter> REMOVE (possible_actions e) = {}"
    and r: "\<And>p. p \<in> ADD (possible_actions e) \<union> REMOVE (possible_actions e) \<Longrightarrow>
               (snd p, fst p) \<notin> ADD (possible_actions e) \<union> REMOVE (possible_actions e)"
    and h: "\<And>p. p \<in> REMOVE (possible_actions e) \<Longrightarrow> has_edge (graph e) (fst p) (snd p)"
    by (simp_all add: actions_consistent_def)
  show "(x, y) \<in> ADD (possible_actions e) \<Longrightarrow> (x, y) \<notin> REMOVE (possible_actions e)"
    using d by blast
  show "(x, y) \<in> ADD (possible_actions e) \<Longrightarrow> (y, x) \<notin> ADD (possible_actions e)"
    using r [of "(x, y)"] by simp
  show "(x, y) \<in> ADD (possible_actions e) \<Longrightarrow> (y, x) \<notin> REMOVE (possible_actions e)"
    using r [of "(x, y)"] by simp
  show "(x, y) \<in> REMOVE (possible_actions e) \<Longrightarrow> (y, x) \<notin> ADD (possible_actions e)"
    using r [of "(x, y)"] by simp
  show "(x, y) \<in> REMOVE (possible_actions e) \<Longrightarrow> (y, x) \<notin> REMOVE (possible_actions e)"
    using r [of "(x, y)"] by simp
  show "(x, y) \<in> REMOVE (possible_actions e) \<Longrightarrow> has_edge (graph e) x y"
    using h [of "(x, y)"] by simp
qed

text \<open>Smaller action sets stay consistent when the remaining removals are still edges.\<close>

lemma actions_consistent_subset:
  assumes "actions_consistent e"
    and "ADD (possible_actions e') \<subseteq> ADD (possible_actions e)"
    and "REMOVE (possible_actions e') \<subseteq> REMOVE (possible_actions e)"
    and "\<And>x y. (x, y) \<in> REMOVE (possible_actions e') \<Longrightarrow> has_edge (graph e') x y"
  shows "actions_consistent e'"
proof -
  from assms(1) have d: "ADD (possible_actions e) \<inter> REMOVE (possible_actions e) = {}"
    and r: "\<And>p. p \<in> ADD (possible_actions e) \<union> REMOVE (possible_actions e) \<Longrightarrow>
               (snd p, fst p) \<notin> ADD (possible_actions e) \<union> REMOVE (possible_actions e)"
    by (simp_all add: actions_consistent_def)
  have "ADD (possible_actions e') \<inter> REMOVE (possible_actions e') = {}"
    using d assms(2,3) by blast
  moreover have "\<forall>p \<in> ADD (possible_actions e') \<union> REMOVE (possible_actions e').
           (snd p, fst p) \<notin> ADD (possible_actions e') \<union> REMOVE (possible_actions e')"
    using r assms(2,3) by blast
  moreover have "\<forall>p \<in> REMOVE (possible_actions e'). has_edge (graph e') (fst p) (snd p)"
    using assms(4) by auto
  ultimately show ?thesis by (simp add: actions_consistent_def)
qed


lemma apply_action_consistent:
  assumes "actions_consistent e" and "apply_action e a = Inr (e', b)"
  shows "actions_consistent e'"
proof (rule actions_consistent_subset [OF assms(1)])
  show "ADD (possible_actions e') \<subseteq> ADD (possible_actions e)"
    and "REMOVE (possible_actions e') \<subseteq> REMOVE (possible_actions e)"
    using apply_action_frame [OF assms(2)] by simp_all
next
  fix x y
  assume xy: "(x, y) \<in> REMOVE (possible_actions e')"
  note D = actions_consistentD [OF assms(1)]
  from assms(2) show "has_edge (graph e') x y"
  proof (cases rule: apply_action_returns)
    case add_forward
    with xy D(6) [of x y] show ?thesis by (simp add: has_edge_add_edge)
  next
    case add_reversed
    with xy D(6) [of x y] show ?thesis by (simp add: has_edge_add_edge)
  next
    case (remove_forward g)
    from xy remove_forward(6) have in_old: "(x, y) \<in> REMOVE (possible_actions e)"
      and ne: "(x, y) \<noteq> (node_target e, a)"
      by simp_all
    from D(5) [OF remove_forward(3)] in_old have "(x, y) \<noteq> (a, node_target e)"
      by blast
    with ne D(6) [OF in_old] remove_forward(6) show ?thesis
      by (simp add: has_edge_remove_edge [OF remove_forward(5)])
  next
    case (remove_reversed g)
    from xy remove_reversed(7) have in_old: "(x, y) \<in> REMOVE (possible_actions e)"
      and ne: "(x, y) \<noteq> (a, node_target e)"
      by simp_all
    from remove_reversed(3) in_old have "(x, y) \<noteq> (node_target e, a)"
      by blast
    with ne D(6) [OF in_old] remove_reversed(7) show ?thesis
      by (simp add: has_edge_remove_edge [OF remove_reversed(6)])
  next
    case no_match
    with xy D(6) [of x y] show ?thesis by simp
  qed
qed

lemma remove_edge_present:
  assumes "has_edge g u v"
  shows "remove_edge g u v =
           Inr (g\<lparr>nx_adj := AList.delete (v, u) (AList.delete (u, v) (nx_adj g))\<rparr>)"
  using assms by (simp add: remove_edge_def has_edge_def)

lemma get_penalty_returns:
  assumes "get_penalty K e = Inr (e', p)"
  obtains new alpha where "new_community_structure e = Some new" "alpha_metric e = Some alpha"
    "p = alpha * (1 - normalized_mutual_information K new (old_community_structure e))
           + (1 - alpha) * graph_similarity K (graph e) (old_graph e) - old_penalty_value e"
    "e' = e\<lparr>old_penalty_value := p\<rparr>"
  using assms
  by (auto simp: get_penalty_def Let_def split: option.splits)

lemma get_reward_returns:
  assumes "get_reward K e = Inr (e', r, d)"
  obtains p where "get_penalty K e = Inr (e', p)" "e' = e\<lparr>old_penalty_value := p\<rparr>"
proof -
  from assms obtain p where p: "get_penalty K e = Inr (e', p)"
    by (auto simp: get_reward_def Let_def split: option.splits sum.splits if_splits)
  then have "e' = e\<lparr>old_penalty_value := p\<rparr>"
    by (auto elim: get_penalty_returns)
  with p show thesis by (rule that)
qed

lemma step_wasted:
  assumes "(node_target e, a) \<notin> ADD (possible_actions e)"
    and "(a, node_target e) \<notin> ADD (possible_actions e)"
    and "(node_target e, a) \<notin> REMOVE (possible_actions e)"
    and "(a, node_target e) \<notin> REMOVE (possible_actions e)"
  shows "step K e a =
           Inr (e\<lparr>old_graph := Some (graph e), rewards := - 1\<rparr>,
                graph e, - 1, stop_episode e, False)"
proof -
  have "apply_action (e\<lparr>old_graph := Some (graph e)\<rparr>) a = Inr (e\<lparr>old_graph := Some (graph e)\<rparr>, 0)"
    using assms by (intro apply_action_no_match) simp_all
  then show ?thesis by (simp add: step_def Let_def)
qed

lemma step_returns:
  assumes "step K e a = Inr (e', out)"
  obtains
    (wasted) "apply_action (e\<lparr>old_graph := Some (graph e)\<rparr>) a
                = Inr (e\<lparr>old_graph := Some (graph e)\<rparr>, 0)"
      "e' = e\<lparr>old_graph := Some (graph e), rewards := - 1\<rparr>"
      "out = (graph e, - 1, stop_episode e, False)"
  | (applied) e1 e2 r d where
      "apply_action (e\<lparr>old_graph := Some (graph e)\<rparr>) a = Inr (e1, 1)"
      "get_reward K (e1\<lparr>new_community_structure := Some (compute_community K (graph e1))\<rparr>)
         = Inr (e2, r, d)"
      "e' = e2\<lparr>rewards := r,
               stop_episode := (stop_episode e \<or> d \<or> edge_budget e - (used_edge_budget e + 1) < 1),
               used_edge_budget := used_edge_budget e + 1,
               old_community_structure := compute_community K (graph e1)\<rparr>"
      "out = (graph e1, r, (stop_episode e \<or> d \<or> edge_budget e - (used_edge_budget e + 1) < 1), d)"
proof -
  let ?e0 = "e\<lparr>old_graph := Some (graph e)\<rparr>"
  from assms obtain e1 b where ap: "apply_action ?e0 a = Inr (e1, b)"
    by (auto simp: step_def Let_def split: sum.splits)
  from apply_action_budget [OF ap] show thesis
  proof
    assume b: "b = 0"
    with ap have e1: "e1 = ?e0" by (cases rule: apply_action_returns) simp_all
    from assms ap b e1 have "e' = e\<lparr>old_graph := Some (graph e), rewards := - 1\<rparr>"
      and "out = (graph e, - 1, stop_episode e, False)"
      by (auto simp: step_def Let_def)
    with ap b e1 show thesis using wasted by simp
  next
    assume b: "b = 1"
    let ?e3 = "e1\<lparr>new_community_structure := Some (compute_community K (graph e1))\<rparr>"
    from assms ap b obtain e2 r d where gr: "get_reward K ?e3 = Inr (e2, r, d)"
      by (auto simp: step_def Let_def split: sum.splits)
    from gr obtain p where e2: "e2 = ?e3\<lparr>old_penalty_value := p\<rparr>"
      by (rule get_reward_returns)
    note fr = apply_action_frame [OF ap]
    from assms ap b gr have
      "e' = e2\<lparr>rewards := r,
               stop_episode := (stop_episode e \<or> d \<or> edge_budget e - (used_edge_budget e + 1) < 1),
               used_edge_budget := used_edge_budget e + 1,
               old_community_structure := compute_community K (graph e1)\<rparr>
       \<and> out = (graph e1, r, (stop_episode e \<or> d \<or> edge_budget e - (used_edge_budget e + 1) < 1), d)"
      using fr(5,7) fr(6) [symmetric]
      by (cases d; cases "edge_budget e - (used_edge_budget e + 1) < 1")
         (auto simp: step_def Let_def e2 intro!: env.equality)
    with ap b gr show thesis using applied by simp
  qed
qed


lemma act_returns:
  "act K e a =
     (case apply_action e a of
        Inl err \<Rightarrow> Inl err
      | Inr (e1, b) \<Rightarrow>
          Inr (e1\<lparr>used_edge_budget := used_edge_budget e + b,
                   stop_episode := (stop_episode e \<or> edge_budget e - (used_edge_budget e + b) < 1)\<rparr>,
               graph e1,
               (stop_episode e \<or> edge_budget e - (used_edge_budget e + b) < 1)))"
proof (cases "apply_action e a")
  case (Inl err)
  then show ?thesis by (simp add: act_def)
next
  case (Inr res)
  then obtain e1 b where ap: "apply_action e a = Inr (e1, b)"
    by (cases res) simp
  note fr = apply_action_frame [OF ap]
  from apply_action_budget [OF ap] have nb: "b \<noteq> - 1" by auto
  show ?thesis
    using fr(5,7) fr(6) [symmetric] nb
    by (cases "edge_budget e - (used_edge_budget e + b) < 1")
       (auto simp: act_def ap Let_def intro!: env.equality)
qed

lemma step_frame:
  assumes "step K e a = Inr (e', out)"
  shows "ADD (possible_actions e') \<subseteq> ADD (possible_actions e)
       \<and> REMOVE (possible_actions e') \<subseteq> REMOVE (possible_actions e)
       \<and> node_target e' = node_target e
       \<and> original_graph e' = original_graph e
       \<and> used_edge_budget e \<le> used_edge_budget e'"
  using assms
proof (cases rule: step_returns)
  case wasted
  then show ?thesis by simp
next
  case (applied e1 e2 r d)
  note fr = apply_action_frame [OF applied(1)]
  from applied(2) obtain p where e2:
    "e2 = e1\<lparr>new_community_structure := Some (compute_community K (graph e1)),
             old_penalty_value := p\<rparr>"
    by (rule get_reward_returns)
  from fr(1,2,3,4) show ?thesis by (simp add: applied(3) e2)
qed

lemma act_frame:
  assumes "act K e a = Inr (e', out)"
  shows "ADD (possible_actions e') \<subseteq> ADD (possible_actions e)"
    and "REMOVE (possible_actions e') \<subseteq> REMOVE (possible_actions e)"
    and "node_target e' = node_target e"
    and "original_graph e' = original_graph e"
    and "used_edge_budget e \<le> used_edge_budget e'"
proof -
  from assms obtain e1 b where ap: "apply_action e a = Inr (e1, b)"
    and e': "e' = e1\<lparr>used_edge_budget := used_edge_budget e + b,
                   stop_episode := (stop_episode e \<or> edge_budget e - (used_edge_budget e + b) < 1)\<rparr>"
    by (auto simp: act_returns split: sum.splits)
  note fr = apply_action_frame [OF ap]
  show "ADD (possible_actions e') \<subseteq> ADD (possible_actions e)" using fr(1) by (simp add: e')
  show "REMOVE (possible_actions e') \<subseteq> REMOVE (possible_actions e)" using fr(2) by (simp add: e')
  show "node_target e' = node_target e" using fr(3) by (simp add: e')
  show "original_graph e' = original_graph e" using fr(4) by (simp add: e')
  show "used_edge_budget e \<le> used_edge_budget e'"
    using apply_action_budget [OF ap] by (auto simp: e')
qed

lemma episode_frame:
  assumes "episode K e e'"
  shows "ADD (possible_actions e') \<subseteq> ADD (possible_actions e)
       \<and> REMOVE (possible_actions e') \<subseteq> REMOVE (possible_actions e)
       \<and> node_target e' = node_target e
       \<and> original_graph e' = original_graph e
       \<and> used_edge_budget e \<le> used_edge_budget e'"
  using assms
proof (induction rule: episode.induct)
  case episode_start
  show ?case by simp
next
  case (episode_step e1 a e2 out)
  from step_frame [OF episode_step.hyps(2)] episode_step.IH show ?case by force
next
  case (episode_act e1 a e2 out')
  from act_frame [OF episode_act.hyps(2)] episode_act.IH show ?case by auto
next
  case (episode_apply_action e1 a e2 b)
  from apply_action_frame [OF episode_apply_action.hyps(2)] episode_apply_action.IH
  show ?case by auto
qed

lemma remove_edge_absent:
  assumes "\<not> has_edge g u v"
  shows "remove_edge g u v = Inl NetworkXError"
  using assms by (simp add: remove_edge_def has_edge_def)

lemma apply_action_closed_form:
  "apply_action e a =
     (if (node_target e, a) \<in> ADD (possible_actions e) then
        Inr (e\<lparr>graph := add_edge (graph e) (node_target e) a 1,
               possible_actions := (possible_actions e)
                 \<lparr>ADD := ADD (possible_actions e) - {(node_target e, a)}\<rparr>\<rparr>, 1)
      else if (a, node_target e) \<in> ADD (possible_actions e) then
        Inr (e\<lparr>graph := add_edge (graph e) a (node_target e) 1,
               possible_actions := (possible_actions e)
                 \<lparr>ADD := ADD (possible_actions e) - {(a, node_target e)}\<rparr>\<rparr>, 1)
      else if (node_target e, a) \<in> REMOVE (possible_actions e) then
        (if has_edge (graph e) (node_target e) a then
           Inr (e\<lparr>graph := (graph e)\<lparr>nx_adj :=
                    AList.delete (a, node_target e)
                      (AList.delete (node_target e, a) (nx_adj (graph e)))\<rparr>,
                  possible_actions := (possible_actions e)
                    \<lparr>REMOVE := REMOVE (possible_actions e) - {(node_target e, a)}\<rparr>\<rparr>, 1)
         else Inl NetworkXError)
      else if (a, node_target e) \<in> REMOVE (possible_actions e) then
        (if has_edge (graph e) a (node_target e) then
           Inr (e\<lparr>graph := (graph e)\<lparr>nx_adj :=
                    AList.delete (node_target e, a)
                      (AList.delete (a, node_target e) (nx_adj (graph e)))\<rparr>,
                  possible_actions := (possible_actions e)
                    \<lparr>REMOVE := REMOVE (possible_actions e) - {(a, node_target e)}\<rparr>\<rparr>, 1)
         else Inl NetworkXError)
      else Inr (e, 0))"
proof -
  consider (af) "(node_target e, a) \<in> ADD (possible_actions e)"
    | (ar) "(node_target e, a) \<notin> ADD (possible_actions e)"
        "(a, node_target e) \<in> ADD (possible_actions e)"
    | (rf) "(node_target e, a) \<notin> ADD (possible_actions e)"
        "(a, node_target e) \<notin> ADD (possible_actions e)"
        "(node_target e, a) \<in> REMOVE (possible_actions e)"
    | (rr) "(node_target e, a) \<notin> ADD (possible_actions e)"
        "(a, node_target e) \<notin> ADD (possible_actions e)"
        "(node_target e, a) \<notin> REMOVE (possible_actions e)"
        "(a, node_target e) \<in> REMOVE (possible_actions e)"
    | (none) "(node_target e, a) \<notin> ADD (possible_actions e)"
        "(a, node_target e) \<notin> ADD (possible_actions e)"
        "(node_target e, a) \<notin> REMOVE (possible_actions e)"
        "(a, node_target e) \<notin> REMOVE (possible_actions e)"
    by blast
  then show ?thesis
  proof cases
    case af
    then show ?thesis by (simp add: apply_action_ADD_forward)
  next
    case ar
    then show ?thesis by (simp add: apply_action_ADD_reversed)
  next
    case rf
    then show ?thesis
      by (cases "has_edge (graph e) (node_target e) a")
         (simp_all add: apply_action_REMOVE_forward remove_edge_present remove_edge_absent)
  next
    case rr
    then show ?thesis
      by (cases "has_edge (graph e) a (node_target e)")
         (simp_all add: apply_action_REMOVE_reversed remove_edge_present remove_edge_absent)
  next
    case none
    then show ?thesis by (simp add: apply_action_no_match)
  qed
qed

lemma apply_action_never_raises:
  assumes "actions_consistent e"
  shows "\<exists>e' b. apply_action e a = Inr (e', b)"
proof -
  note D = actions_consistentD(6) [OF assms]
  show ?thesis
    using D [of "node_target e" a] D [of a "node_target e"]
    by (simp add: apply_action_closed_form)
qed

lemma apply_action_consumed:
  assumes "actions_consistent e" and "apply_action e a = Inr (e', 1)"
  shows "(node_target e, a) \<notin> ADD (possible_actions e') \<union> REMOVE (possible_actions e')
       \<and> (a, node_target e) \<notin> ADD (possible_actions e') \<union> REMOVE (possible_actions e')"
proof -
  note D = actions_consistentD [OF assms(1)]
  from assms(2) show ?thesis
  proof (cases rule: apply_action_returns)
    case add_forward
    with D(1,2,3) [OF add_forward(1)] show ?thesis by auto
  next
    case add_reversed
    with D(1,2,3) [OF add_reversed(2)] show ?thesis by auto
  next
    case (remove_forward g)
    with D(4,5) [OF remove_forward(3)] show ?thesis by auto
  next
    case (remove_reversed g)
    with D(4,5) [OF remove_reversed(4)] show ?thesis by auto
  next
    case no_match
    then show ?thesis by simp
  qed
qed

lemma apply_action_edge:
  assumes "actions_consistent e" and "apply_action e a = Inr (e', 1)"
  shows "has_edge (graph e') (node_target e) a \<longleftrightarrow>
           (node_target e, a) \<in> ADD (possible_actions e) \<or> (a, node_target e) \<in> ADD (possible_actions e)"
  using assms(2)
proof (cases rule: apply_action_returns)
  case add_forward
  then show ?thesis by (simp add: has_edge_add_edge)
next
  case add_reversed
  then show ?thesis by (simp add: has_edge_add_edge)
next
  case (remove_forward g)
  then show ?thesis by (simp add: has_edge_remove_edge [OF remove_forward(5)])
next
  case (remove_reversed g)
  then show ?thesis by (simp add: has_edge_remove_edge [OF remove_reversed(6)])
next
  case no_match
  then show ?thesis by simp
qed

text \<open>
  Claim C2. For every environment, \<open>apply_action\<close> tests, in this order, the forward
  pair in \<open>ADD\<close>, the reversed pair in \<open>ADD\<close>, the forward pair in \<open>REMOVE\<close> and the
  reversed pair in \<open>REMOVE\<close>; on the first match it adds or removes that edge, deletes
  that pair from its set and returns 1 (\<open>remove_edge\<close> raising when the pair to remove
  is not an edge); with no match it returns 0 and the environment is unchanged. In an
  environment whose action sets are consistent with the graph (as \<open>reset\<close> leaves them
  and every call keeps them) \<open>apply_action\<close> never raises, and after a call that
  returned 1 the edge between the target and the destination is present exactly when
  the pair came from \<open>ADD\<close>, a second call on the same destination returns 0 and
  changes nothing, and the pair is in no action set of any environment reached later in
  the episode.
\<close>

theorem apply_action_one_shot:
  "apply_action e a =
     (if (node_target e, a) \<in> ADD (possible_actions e) then
        Inr (e\<lparr>graph := add_edge (graph e) (node_target e) a 1,
               possible_actions := (possible_actions e)
                 \<lparr>ADD := ADD (possible_actions e) - {(node_target e, a)}\<rparr>\<rparr>, 1)
      else if (a, node_target e) \<in> ADD (possible_actions e) then
        Inr (e\<lparr>graph := add_edge (graph e) a (node_target e) 1,
               possible_actions := (possible_actions e)
                 \<lparr>ADD := ADD (possible_actions e) - {(a, node_target e)}\<rparr>\<rparr>, 1)
      else if (node_target e, a) \<in> REMOVE (possible_actions e) then
        (if has_edge (graph e) (node_target e) a then
           Inr (e\<lparr>graph := (graph e)\<lparr>nx_adj :=
                    AList.delete (a, node_target e)
                      (AList.delete (node_target e, a) (nx_adj (graph e)))\<rparr>,
                  possible_actions := (possible_actions e)
                    \<lparr>REMOVE := REMOVE (possible_actions e) - {(node_target e, a)}\<rparr>\<rparr>, 1)
         else Inl NetworkXError)
      else if (a, node_target e) \<in> REMOVE (possible_actions e) then
        (if has_edge (graph e) a (node_target e) then
           Inr (e\<lparr>graph := (graph e)\<lparr>nx_adj :=
                    AList.delete (node_target e, a)
                      (AList.delete (a, node_target e) (nx_adj (graph e)))\<rparr>,
                  possible_actions := (possible_actions e)
                    \<lparr>REMOVE := REMOVE (possible_actions e) - {(a, node_target e)}\<rparr>\<rparr>, 1)
         else Inl NetworkXError)
      else Inr (e, 0))
   \<and> (actions_consistent e \<longrightarrow>
        (\<exists>e' b. apply_action e a = Inr (e', b))
      \<and> (\<forall>e'. apply_action e a = Inr (e', 1) \<longrightarrow>
            (has_edge (graph e') (node_target e) a \<longleftrightarrow>
               (node_target e, a) \<in> ADD (possible_actions e)
               \<or> (a, node_target e) \<in> ADD (possible_actions e))
          \<and> apply_action e' a = Inr (e', 0)
          \<and> (\<forall>K e''. episode K e' e'' \<longrightarrow>
                (node_target e, a) \<notin> ADD (possible_actions e'') \<union> REMOVE (possible_actions e'')
              \<and> (a, node_target e) \<notin> ADD (possible_actions e'') \<union> REMOVE (possible_actions e''))))"
proof (intro conjI allI impI)
  show "apply_action e a =
     (if (node_target e, a) \<in> ADD (possible_actions e) then
        Inr (e\<lparr>graph := add_edge (graph e) (node_target e) a 1,
               possible_actions := (possible_actions e)
                 \<lparr>ADD := ADD (possible_actions e) - {(node_target e, a)}\<rparr>\<rparr>, 1)
      else if (a, node_target e) \<in> ADD (possible_actions e) then
        Inr (e\<lparr>graph := add_edge (graph e) a (node_target e) 1,
               possible_actions := (possible_actions e)
                 \<lparr>ADD := ADD (possible_actions e) - {(a, node_target e)}\<rparr>\<rparr>, 1)
      else if (node_target e, a) \<in> REMOVE (possible_actions e) then
        (if has_edge (graph e) (node_target e) a then
           Inr (e\<lparr>graph := (graph e)\<lparr>nx_adj :=
                    AList.delete (a, node_target e)
                      (AList.delete (node_target e, a) (nx_adj (graph e)))\<rparr>,
                  possible_actions := (possible_actions e)
                    \<lparr>REMOVE := REMOVE (possible_actions e) - {(node_target e, a)}\<rparr>\<rparr>, 1)
         else Inl NetworkXError)
      else if (a, node_target e) \<in> REMOVE (possible_actions e) then
        (if has_edge (graph e) a (node_target e) then
           Inr (e\<lparr>graph := (graph e)\<lparr>nx_adj :=
                    AList.delete (node_target e, a)
                      (AList.delete (a, node_target e) (nx_adj (graph e)))\<rparr>,
                  possible_actions := (possible_actions e)
                    \<lparr>REMOVE := REMOVE (possible_actions e) - {(a, node_target e)}\<rparr>\<rparr>, 1)
         else Inl NetworkXError)
      else Inr (e, 0))"
    by (rule apply_action_closed_form)
next
  assume "actions_consistent e"
  then show "\<exists>e' b. apply_action e a = Inr (e', b)"
    by (rule apply_action_never_raises)
next
  fix e'
  assume c: "actions_consistent e" and ap: "apply_action e a = Inr (e', 1)"
  note gone = apply_action_consumed [OF c ap]
  from apply_action_frame(3) [OF ap] have nt: "node_target e' = node_target e" .
  show "has_edge (graph e') (node_target e) a \<longleftrightarrow>
          (node_target e, a) \<in> ADD (possible_actions e) \<or> (a, node_target e) \<in> ADD (possible_actions e)"
    by (rule apply_action_edge [OF c ap])
  show "apply_action e' a = Inr (e', 0)"
    using gone by (intro apply_action_no_match) (simp_all add: nt)
  fix K e''
  assume "episode K e' e''"
  from episode_frame [OF this] gone
  show "(node_target e, a) \<notin> ADD (possible_actions e'') \<union> REMOVE (possible_actions e'')"
    and "(a, node_target e) \<notin> ADD (possible_actions e'') \<union> REMOVE (possible_actions e'')"
    by blast+
qed

lemma example_consistent: "actions_consistent example_env"
  by (simp add: actions_consistent_def example_env_def has_edge_def example_graph_def)

lemma example_possible_actions:
  "possible_actions example_env =
     \<lparr>ADD = {(0, 5), (0, 6), (0, 7), (0, 8), (0, 9)}, REMOVE = {(0, 1), (0, 2)}\<rparr>"
  by (simp add: example_env_def)

lemma order_env_fields:
  "node_target order_env_add = 0" "graph order_env_add = example_graph"
  "possible_actions order_env_add = \<lparr>ADD = {(0, 1), (1, 0)}, REMOVE = {(0, 1)}\<rparr>"
  "node_target order_env_reversed = 0" "graph order_env_reversed = example_graph"
  "possible_actions order_env_reversed = \<lparr>ADD = {(1, 0)}, REMOVE = {(0, 1), (1, 0)}\<rparr>"
  "node_target order_env_remove = 0" "graph order_env_remove = example_graph"
  "possible_actions order_env_remove = \<lparr>ADD = {}, REMOVE = {(0, 1), (1, 0)}\<rparr>"
  by (simp_all add: order_env_add_def order_env_reversed_def order_env_remove_def example_env_def)

theorem apply_action_one_shot_witness:
  "apply_action order_env_add 1 =
       Inr (order_env_add\<lparr>graph := add_edge example_graph 0 1 1,
              possible_actions := \<lparr>ADD = {(1, 0)}, REMOVE = {(0, 1)}\<rparr>\<rparr>, 1)
   \<and> apply_action order_env_reversed 1 =
       Inr (order_env_reversed\<lparr>graph := add_edge example_graph 1 0 1,
              possible_actions := \<lparr>ADD = {}, REMOVE = {(0, 1), (1, 0)}\<rparr>\<rparr>, 1)
   \<and> apply_action order_env_remove 1 =
       Inr (order_env_remove\<lparr>graph := example_graph\<lparr>nx_adj :=
                AList.delete (1, 0) (AList.delete (0, 1) (nx_adj example_graph))\<rparr>,
              possible_actions := \<lparr>ADD = {}, REMOVE = {(1, 0)}\<rparr>\<rparr>, 1)
   \<and> actions_consistent example_env
   \<and> apply_action example_env 7 =
       Inr (example_env\<lparr>graph := add_edge example_graph 0 7 1,
              possible_actions := \<lparr>ADD = {(0, 5), (0, 6), (0, 8), (0, 9)}, REMOVE = {(0, 1), (0, 2)}\<rparr>\<rparr>, 1)
   \<and> apply_action
         (example_env\<lparr>graph := add_edge example_graph 0 7 1,
              possible_actions := \<lparr>ADD = {(0, 5), (0, 6), (0, 8), (0, 9)}, REMOVE = {(0, 1), (0, 2)}\<rparr>\<rparr>) 7 =
       Inr (example_env\<lparr>graph := add_edge example_graph 0 7 1,
              possible_actions := \<lparr>ADD = {(0, 5), (0, 6), (0, 8), (0, 9)}, REMOVE = {(0, 1), (0, 2)}\<rparr>\<rparr>, 0)"
proof -
  have o1: "apply_action order_env_add 1 =
       Inr (order_env_add\<lparr>graph := add_edge example_graph 0 1 1,
              possible_actions := \<lparr>ADD = {(1, 0)}, REMOVE = {(0, 1)}\<rparr>\<rparr>, 1)"
    using apply_action_one_shot [of order_env_add 1, THEN conjunct1]
    by (simp add: order_env_fields insert_Diff_if)
  have o2: "apply_action order_env_reversed 1 =
       Inr (order_env_reversed\<lparr>graph := add_edge example_graph 1 0 1,
              possible_actions := \<lparr>ADD = {}, REMOVE = {(0, 1), (1, 0)}\<rparr>\<rparr>, 1)"
    using apply_action_one_shot [of order_env_reversed 1, THEN conjunct1]
    by (simp add: order_env_fields insert_Diff_if)
  have o3: "apply_action order_env_remove 1 =
       Inr (order_env_remove\<lparr>graph := example_graph\<lparr>nx_adj :=
                AList.delete (1, 0) (AList.delete (0, 1) (nx_adj example_graph))\<rparr>,
              possible_actions := \<lparr>ADD = {}, REMOVE = {(1, 0)}\<rparr>\<rparr>, 1)"
    using apply_action_one_shot [of order_env_remove 1, THEN conjunct1]
    by (simp add: order_env_fields insert_Diff_if example_has_edge)
  note T = apply_action_one_shot [of example_env 7]
  have first: "apply_action example_env 7 =
       Inr (example_env\<lparr>graph := add_edge example_graph 0 7 1,
              possible_actions := \<lparr>ADD = {(0, 5), (0, 6), (0, 8), (0, 9)}, REMOVE = {(0, 1), (0, 2)}\<rparr>\<rparr>, 1)"
    using T [THEN conjunct1]
    by (simp add: example_env_fields example_possible_actions insert_Diff_if)
  note S = T [THEN conjunct2, THEN mp, OF example_consistent, THEN conjunct2, rule_format, OF first]
  from S first example_consistent o1 o2 o3
  show ?thesis by simp
qed

text \<open>
  Claim C1. When neither the pair of the target node and the destination nor its
  reverse is in an action set, \<open>apply_action\<close> consumes no budget, and \<open>step\<close> sets
  the reward to \<open>-1\<close> and returns the graph, \<open>-1\<close>, the stop flag and \<open>False\<close>. The
  working graph, the stop flag, the used budget, the action sets, the previous-step
  community structure and the stored penalty are as before the call, and the current-step
  community structure is not recomputed; only \<open>old_graph\<close> and \<open>rewards\<close> change.
\<close>

theorem step_wasted_turn:
  assumes "(node_target e, a) \<notin> ADD (possible_actions e)"
    and "(a, node_target e) \<notin> ADD (possible_actions e)"
    and "(node_target e, a) \<notin> REMOVE (possible_actions e)"
    and "(a, node_target e) \<notin> REMOVE (possible_actions e)"
  shows "apply_action e a = Inr (e, 0)
       \<and> step K e a =
           Inr (e\<lparr>old_graph := Some (graph e), rewards := - 1\<rparr>,
                graph e, - 1, stop_episode e, False)
       \<and> (\<forall>e' out. step K e a = Inr (e', out) \<longrightarrow>
             rewards e' = - 1
           \<and> graph e' = graph e
           \<and> stop_episode e' = stop_episode e
           \<and> used_edge_budget e' = used_edge_budget e
           \<and> possible_actions e' = possible_actions e
           \<and> old_community_structure e' = old_community_structure e
           \<and> new_community_structure e' = new_community_structure e
           \<and> old_penalty_value e' = old_penalty_value e)"
proof -
  have "apply_action e a = Inr (e, 0)"
    using assms by (rule apply_action_no_match)
  moreover have "step K e a =
           Inr (e\<lparr>old_graph := Some (graph e), rewards := - 1\<rparr>,
                graph e, - 1, stop_episode e, False)"
    using assms by (rule step_wasted)
  ultimately show ?thesis by simp
qed

theorem step_wasted_turn_witness:
  "(node_target example_env, 3) \<notin> ADD (possible_actions example_env)
   \<and> (3, node_target example_env) \<notin> ADD (possible_actions example_env)
   \<and> (node_target example_env, 3) \<notin> REMOVE (possible_actions example_env)
   \<and> (3, node_target example_env) \<notin> REMOVE (possible_actions example_env)
   \<and> step example_collaborators example_env 3 =
        Inr (example_env\<lparr>old_graph := Some example_graph, rewards := - 1\<rparr>,
             example_graph, - 1, False, False)"
proof -
  have h: "(node_target example_env, 3) \<notin> ADD (possible_actions example_env)"
    "(3, node_target example_env) \<notin> ADD (possible_actions example_env)"
    "(node_target example_env, 3) \<notin> REMOVE (possible_actions example_env)"
    "(3, node_target example_env) \<notin> REMOVE (possible_actions example_env)"
    by (simp_all add: example_env_def)
  have f: "graph example_env = example_graph" "stop_episode example_env = False"
    by (simp_all add: example_env_def)
  from step_wasted_turn [OF h, of example_collaborators, THEN conjunct2, THEN conjunct1] h
  show ?thesis by (simp add: f)
qed

text \<open>
  Claim C6. \<open>apply_action\<close> returns 0 or 1 and never \<open>-1\<close>, so the branch of \<open>act\<close>
  under \<open>budget_consumed == -1\<close> is never taken: \<open>act\<close> raises exactly when
  \<open>apply_action\<close> does, and otherwise only adds the consumed budget to
  \<open>used_edge_budget\<close> and sets the stop flag exactly when it was set before or the
  remaining budget is below 1. The community structure is not recomputed, whatever the
  collaborators are.
\<close>

theorem act_similarity_branch_unreachable:
  "(\<forall>e' b. apply_action e a = Inr (e', b) \<longrightarrow> (b = 0 \<or> b = 1) \<and> b \<noteq> - 1)
   \<and> act K e a =
       (case apply_action e a of
          Inl err \<Rightarrow> Inl err
        | Inr (e1, b) \<Rightarrow>
            Inr (e1\<lparr>used_edge_budget := used_edge_budget e + b,
                     stop_episode := (stop_episode e \<or> edge_budget e - (used_edge_budget e + b) < 1)\<rparr>,
                 graph e1,
                 (stop_episode e \<or> edge_budget e - (used_edge_budget e + b) < 1)))
   \<and> (\<forall>e' out. act K e a = Inr (e', out) \<longrightarrow>
         new_community_structure e' = new_community_structure e)"
proof (intro conjI allI impI)
  fix e' b
  assume "apply_action e a = Inr (e', b)"
  from apply_action_budget [OF this] show "b = 0 \<or> b = 1" and "b \<noteq> - 1" by auto
next
  show "act K e a =
       (case apply_action e a of
          Inl err \<Rightarrow> Inl err
        | Inr (e1, b) \<Rightarrow>
            Inr (e1\<lparr>used_edge_budget := used_edge_budget e + b,
                     stop_episode := (stop_episode e \<or> edge_budget e - (used_edge_budget e + b) < 1)\<rparr>,
                 graph e1,
                 (stop_episode e \<or> edge_budget e - (used_edge_budget e + b) < 1)))"
    by (rule act_returns)
next
  fix e' out
  assume "act K e a = Inr (e', out)"
  then obtain e1 b where ap: "apply_action e a = Inr (e1, b)"
    and e': "e' = e1\<lparr>used_edge_budget := used_edge_budget e + b,
                   stop_episode := (stop_episode e \<or> edge_budget e - (used_edge_budget e + b) < 1)\<rparr>"
    by (auto simp: act_returns split: sum.splits)
  from apply_action_frame(9) [OF ap] show "new_community_structure e' = new_community_structure e"
    by (simp add: e')
qed

theorem act_similarity_branch_unreachable_witness:
  "apply_action example_env 7 =
       Inr (example_env\<lparr>graph := add_edge example_graph 0 7 1,
              possible_actions := \<lparr>ADD = {(0, 5), (0, 6), (0, 8), (0, 9)}, REMOVE = {(0, 1), (0, 2)}\<rparr>\<rparr>, 1)
   \<and> act example_collaborators example_env 7 =
       Inr (example_env\<lparr>graph := add_edge example_graph 0 7 1,
              possible_actions := \<lparr>ADD = {(0, 5), (0, 6), (0, 8), (0, 9)}, REMOVE = {(0, 1), (0, 2)}\<rparr>,
              used_edge_budget := 1, stop_episode := False\<rparr>,
            add_edge example_graph 0 7 1, False)"
proof -
  have first: "apply_action example_env 7 =
       Inr (example_env\<lparr>graph := add_edge example_graph 0 7 1,
              possible_actions := \<lparr>ADD = {(0, 5), (0, 6), (0, 8), (0, 9)}, REMOVE = {(0, 1), (0, 2)}\<rparr>\<rparr>, 1)"
    by (simp add: apply_action_ADD_forward example_env_fields example_possible_actions insert_Diff_if)
  have f: "used_edge_budget example_env = 0" "stop_episode example_env = False"
    "edge_budget example_env = 8"
    by (simp_all add: example_env_def)
  from act_similarity_branch_unreachable [of example_env 7 example_collaborators,
      THEN conjunct2, THEN conjunct1] first
  show ?thesis by (simp add: f)
qed

subsection \<open>\<open>reset\<close>\<close>

lemma visit_node_cong:
  assumes "node_target e = node_target e'" "community_target e = community_target e'"
    "graph e = graph e'"
  shows "visit_node e = visit_node e'"
  using assms
  by (intro ext) (simp add: visit_node_def in_community_def out_community_def Let_def)

lemma get_possible_actions_cong:
  assumes "node_target e = node_target e'" "community_target e = community_target e'"
    "graph e = graph e'"
  shows "get_possible_actions e = get_possible_actions e'"
  using visit_node_cong [OF assms] assms(3) by (simp add: get_possible_actions_def)

lemma reset_returns:
  "reset e graph_reset =
     (e\<lparr>used_edge_budget := 0, stop_episode := False, rewards := 0, old_rewards := 0,
        graph := (if graph_reset then original_graph e else graph e),
        old_graph := None, old_penalty_value := 0,
        old_community_structure := original_community_structure e,
        possible_actions :=
          get_possible_actions (e\<lparr>graph := (if graph_reset then original_graph e else graph e)\<rparr>)\<rparr>,
      if graph_reset then original_graph e else graph e)"
proof -
  have "get_possible_actions
          (e\<lparr>used_edge_budget := 0, stop_episode := False, rewards := 0, old_rewards := 0,
             graph := g, old_graph := None, old_penalty_value := 0,
             old_community_structure := original_community_structure e\<rparr>)
        = get_possible_actions (e\<lparr>graph := g\<rparr>)" for g
    by (rule get_possible_actions_cong) simp_all
  moreover have "get_possible_actions
          (e\<lparr>used_edge_budget := 0, stop_episode := False, rewards := 0, old_rewards := 0,
             old_graph := None, old_penalty_value := 0,
             old_community_structure := original_community_structure e\<rparr>)
        = get_possible_actions e"
    by (rule get_possible_actions_cong) simp_all
  ultimately show ?thesis
    by (cases graph_reset) (simp_all add: reset_def Let_def)
qed

lemma get_possible_actions_consistent:
  assumes "possible_actions e = get_possible_actions e"
  shows "actions_consistent e"
  unfolding actions_consistent_def assms
  by (auto simp: get_possible_actions_sets)

lemma reset_possible_actions:
  "possible_actions (fst (reset e graph_reset)) = get_possible_actions (fst (reset e graph_reset))"
proof -
  let ?g = "if graph_reset then original_graph e else graph e"
  have "get_possible_actions (fst (reset e graph_reset)) = get_possible_actions (e\<lparr>graph := ?g\<rparr>)"
    by (rule get_possible_actions_cong) (simp_all add: reset_returns)
  then show ?thesis by (simp add: reset_returns)
qed

lemma reset_consistent: "actions_consistent (fst (reset e graph_reset))"
  using reset_possible_actions by (rule get_possible_actions_consistent)

lemma episode_consistent:
  assumes "episode K e e'" and "actions_consistent e"
  shows "actions_consistent e'"
  using assms
proof (induction rule: episode.induct)
  case episode_start
  then show ?case by simp
next
  case (episode_step e1 a e2 out)
  then have c1: "actions_consistent e1" by simp
  from episode_step.hyps(2) show ?case
  proof (cases rule: step_returns)
    case wasted
    with c1 show ?thesis by (simp add: actions_consistent_def)
  next
    case (applied e1' e2' r d)
    from c1 have "actions_consistent (e1\<lparr>old_graph := Some (graph e1)\<rparr>)"
      by (simp add: actions_consistent_def)
    from apply_action_consistent [OF this applied(1)] have c: "actions_consistent e1'" .
    from applied(2) obtain p where
      "e2' = e1'\<lparr>new_community_structure := Some (compute_community K (graph e1')),
             old_penalty_value := p\<rparr>"
      by (rule get_reward_returns)
    with c applied(3) show ?thesis by (simp add: actions_consistent_def)
  qed
next
  case (episode_act e1 a e2 out')
  then have c1: "actions_consistent e1" by simp
  from episode_act.hyps(2) obtain e1' b where ap: "apply_action e1 a = Inr (e1', b)"
    and e2: "e2 = e1'\<lparr>used_edge_budget := used_edge_budget e1 + b,
                   stop_episode := (stop_episode e1 \<or> edge_budget e1 - (used_edge_budget e1 + b) < 1)\<rparr>"
    by (auto simp: act_returns split: sum.splits)
  from apply_action_consistent [OF c1 ap] show ?case
    by (simp add: e2 actions_consistent_def)
next
  case (episode_apply_action e1 a e2 b)
  then show ?case using apply_action_consistent by blast
qed

lemma reset_action_sets:
  "ADD (possible_actions (fst (reset e graph_reset))) =
       {(node_target e, v) | v.
          v \<in> set (nx_nodes (if graph_reset then original_graph e else graph e))
          \<and> v \<noteq> node_target e
          \<and> (node_target e \<in> set (community_target e)) \<noteq> (v \<in> set (community_target e))
          \<and> \<not> has_edge (if graph_reset then original_graph e else graph e) (node_target e) v}
   \<and> REMOVE (possible_actions (fst (reset e graph_reset))) =
       {(node_target e, v) | v.
          v \<in> set (nx_nodes (if graph_reset then original_graph e else graph e))
          \<and> v \<noteq> node_target e
          \<and> node_target e \<in> set (community_target e) \<and> v \<in> set (community_target e)
          \<and> has_edge (if graph_reset then original_graph e else graph e) (node_target e) v}"
  by (simp add: reset_returns get_possible_actions_sets)

text \<open>
  Claim C7. \<open>reset\<close> sets \<open>used_edge_budget\<close> to 0, clears the stop flag and both
  reward fields, sets the previous-step community structure to the original one,
  recomputes the action sets for the current target on the graph it returns, replaces
  the working graph by the original graph when \<open>graph_reset\<close> is true and leaves it
  otherwise, and returns the working graph. After \<open>reset\<close> the set \<open>REMOVE\<close> holds
  the pairs of the target node and every other node of that graph joined to it, both
  being in the target community, and \<open>ADD\<close> the pairs of the target node and every
  other node not joined to it, one of the two being in the target community. So
  \<open>reset(True)\<close> returns the original graph; and between two environments of one
  episode the used budget never decreases and the original graph never changes.
\<close>

theorem reset_restores:
  "reset e graph_reset =
     (e\<lparr>used_edge_budget := 0, stop_episode := False, rewards := 0, old_rewards := 0,
        graph := (if graph_reset then original_graph e else graph e),
        old_graph := None, old_penalty_value := 0,
        old_community_structure := original_community_structure e,
        possible_actions :=
          get_possible_actions (e\<lparr>graph := (if graph_reset then original_graph e else graph e)\<rparr>)\<rparr>,
      if graph_reset then original_graph e else graph e)
   \<and> used_edge_budget (fst (reset e graph_reset)) = 0
   \<and> \<not> stop_episode (fst (reset e graph_reset))
   \<and> rewards (fst (reset e graph_reset)) = 0
   \<and> old_rewards (fst (reset e graph_reset)) = 0
   \<and> old_community_structure (fst (reset e graph_reset)) = original_community_structure e
   \<and> possible_actions (fst (reset e graph_reset)) = get_possible_actions (fst (reset e graph_reset))
   \<and> ADD (possible_actions (fst (reset e graph_reset))) =
       {(node_target e, v) | v.
          v \<in> set (nx_nodes (if graph_reset then original_graph e else graph e))
          \<and> v \<noteq> node_target e
          \<and> (node_target e \<in> set (community_target e)) \<noteq> (v \<in> set (community_target e))
          \<and> \<not> has_edge (if graph_reset then original_graph e else graph e) (node_target e) v}
   \<and> REMOVE (possible_actions (fst (reset e graph_reset))) =
       {(node_target e, v) | v.
          v \<in> set (nx_nodes (if graph_reset then original_graph e else graph e))
          \<and> v \<noteq> node_target e
          \<and> node_target e \<in> set (community_target e) \<and> v \<in> set (community_target e)
          \<and> has_edge (if graph_reset then original_graph e else graph e) (node_target e) v}
   \<and> snd (reset e graph_reset) = graph (fst (reset e graph_reset))
   \<and> snd (reset e True) = original_graph e
   \<and> snd (reset e False) = graph e
   \<and> original_graph (fst (reset e graph_reset)) = original_graph e
   \<and> (\<forall>K e1 e2. episode K e1 e2 \<longrightarrow>
         used_edge_budget e1 \<le> used_edge_budget e2 \<and> original_graph e2 = original_graph e1)"
proof -
  note pa = reset_possible_actions [of e graph_reset]
  note sets = reset_action_sets [of e graph_reset]
  have ep: "\<forall>K e1 e2. episode K e1 e2 \<longrightarrow>
         used_edge_budget e1 \<le> used_edge_budget e2 \<and> original_graph e2 = original_graph e1"
    using episode_frame by blast
  have rest: "used_edge_budget (fst (reset e graph_reset)) = 0
   \<and> \<not> stop_episode (fst (reset e graph_reset))
   \<and> rewards (fst (reset e graph_reset)) = 0
   \<and> old_rewards (fst (reset e graph_reset)) = 0
   \<and> old_community_structure (fst (reset e graph_reset)) = original_community_structure e
   \<and> snd (reset e graph_reset) = graph (fst (reset e graph_reset))
   \<and> snd (reset e True) = original_graph e
   \<and> snd (reset e False) = graph e
   \<and> original_graph (fst (reset e graph_reset)) = original_graph e"
    by (simp add: reset_returns)
  from pa sets ep rest reset_returns [of e graph_reset] show ?thesis by blast
qed


lemma example_act:
  "act example_collaborators example_env 7 =
     Inr (example_env_acted, add_edge example_graph 0 7 1, False)"
proof -
  have "apply_action example_env 7 =
       Inr (example_env\<lparr>graph := add_edge example_graph 0 7 1,
              possible_actions := \<lparr>ADD = {(0, 5), (0, 6), (0, 8), (0, 9)}, REMOVE = {(0, 1), (0, 2)}\<rparr>\<rparr>, 1)"
    by (simp add: apply_action_ADD_forward example_env_fields example_possible_actions insert_Diff_if)
  moreover have "used_edge_budget example_env = 0" "stop_episode example_env = False"
    "edge_budget example_env = 8"
    by (simp_all add: example_env_def)
  ultimately show ?thesis
    by (simp add: act_returns example_env_acted_def)
qed

theorem reset_restores_witness:
  "episode example_collaborators example_env example_env_acted
   \<and> used_edge_budget example_env = 0
   \<and> used_edge_budget example_env_acted = 1
   \<and> graph example_env_acted \<noteq> original_graph example_env_acted
   \<and> snd (reset example_env_acted True) = example_graph
   \<and> used_edge_budget (fst (reset example_env_acted True)) = 0
   \<and> (0, 7) \<notin> ADD (possible_actions example_env_acted)
   \<and> (0, 7) \<in> ADD (possible_actions (fst (reset example_env_acted True)))
   \<and> (0, 1) \<in> REMOVE (possible_actions (fst (reset example_env_acted True)))
   \<and> (0, 3) \<notin> ADD (possible_actions (fst (reset example_env_acted True)))
   \<and> (0, 7) \<notin> ADD (possible_actions (fst (reset example_env_acted False)))"
proof -
  have ep: "episode example_collaborators example_env example_env_acted"
    by (rule episode_act [OF episode_start example_act])
  have f: "used_edge_budget example_env = 0" "used_edge_budget example_env_acted = 1"
    "original_graph example_env_acted = example_graph"
    "graph example_env_acted = add_edge example_graph 0 7 1"
    "node_target example_env_acted = 0"
    "community_target example_env_acted = [0, 1, 2, 3, 4]"
    by (simp_all add: example_env_def example_env_acted_def)
  have ne: "graph example_env_acted \<noteq> original_graph example_env_acted"
    unfolding f by (simp add: add_edge_def example_graph_def)
  have before: "(0, 7) \<notin> ADD (possible_actions example_env_acted)"
    by (simp add: example_env_acted_def)
  have edges: "\<not> has_edge example_graph 0 3" "has_edge (add_edge example_graph 0 7 1) 0 7"
    by (simp_all add: has_edge_add_edge) (simp add: has_edge_def example_graph_def)
  have nodes: "(7::int) \<in> set (nx_nodes example_graph)" "(1::int) \<in> set (nx_nodes example_graph)"
    by (simp_all add: example_graph_def)
  note R = reset_restores [of example_env_acted True]
  note F = reset_restores [of example_env_acted False]
  from R have g: "snd (reset example_env_acted True) = original_graph example_env_acted"
    and u: "used_edge_budget (fst (reset example_env_acted True)) = 0"
    and m: "\<forall>K e1 e2. episode K e1 e2 \<longrightarrow>
         used_edge_budget e1 \<le> used_edge_budget e2 \<and> original_graph e2 = original_graph e1"
    by blast+
  from R have a: "ADD (possible_actions (fst (reset example_env_acted True))) =
       {(node_target example_env_acted, v) | v.
          v \<in> set (nx_nodes (if True then original_graph example_env_acted else graph example_env_acted))
          \<and> v \<noteq> node_target example_env_acted
          \<and> (node_target example_env_acted \<in> set (community_target example_env_acted))
              \<noteq> (v \<in> set (community_target example_env_acted))
          \<and> \<not> has_edge (if True then original_graph example_env_acted else graph example_env_acted)
                (node_target example_env_acted) v}"
    and r: "REMOVE (possible_actions (fst (reset example_env_acted True))) =
       {(node_target example_env_acted, v) | v.
          v \<in> set (nx_nodes (if True then original_graph example_env_acted else graph example_env_acted))
          \<and> v \<noteq> node_target example_env_acted
          \<and> node_target example_env_acted \<in> set (community_target example_env_acted)
          \<and> v \<in> set (community_target example_env_acted)
          \<and> has_edge (if True then original_graph example_env_acted else graph example_env_acted)
                (node_target example_env_acted) v}"
    by blast+
  from F have a': "ADD (possible_actions (fst (reset example_env_acted False))) =
       {(node_target example_env_acted, v) | v.
          v \<in> set (nx_nodes (if False then original_graph example_env_acted else graph example_env_acted))
          \<and> v \<noteq> node_target example_env_acted
          \<and> (node_target example_env_acted \<in> set (community_target example_env_acted))
              \<noteq> (v \<in> set (community_target example_env_acted))
          \<and> \<not> has_edge (if False then original_graph example_env_acted else graph example_env_acted)
                (node_target example_env_acted) v}"
    by blast
  have a7: "(0, 7) \<in> ADD (possible_actions (fst (reset example_env_acted True)))"
    unfolding a using nodes example_has_edge by (simp add: f)
  have r1: "(0, 1) \<in> REMOVE (possible_actions (fst (reset example_env_acted True)))"
    unfolding r using nodes example_has_edge by (simp add: f)
  have a3: "(0, 3) \<notin> ADD (possible_actions (fst (reset example_env_acted True)))"
    unfolding a by (simp add: f)
  have a7': "(0, 7) \<notin> ADD (possible_actions (fst (reset example_env_acted False)))"
    unfolding a' using edges by (simp add: f)
  from ep f ne g u m before a7 r1 a3 a7' show ?thesis by simp
qed

subsection \<open>Penalty and reward\<close>

lemma get_penalty_value:
  assumes "new_community_structure e = Some new" and "alpha_metric e = Some alpha"
  shows "get_penalty K e =
           Inr (e\<lparr>old_penalty_value :=
                    alpha * (1 - normalized_mutual_information K new (old_community_structure e))
                    + (1 - alpha) * graph_similarity K (graph e) (old_graph e)
                    - old_penalty_value e\<rparr>,
                alpha * (1 - normalized_mutual_information K new (old_community_structure e))
                + (1 - alpha) * graph_similarity K (graph e) (old_graph e)
                - old_penalty_value e)"
  using assms by (simp add: get_penalty_def Let_def)

text \<open>
  Claim C5. With \<open>alpha_metric\<close> and the current-step structure set, \<open>get_penalty\<close>
  returns \<open>alpha * (1 - NMI(new, old)) + (1 - alpha) * graph_similarity(graph, old_graph)\<close>
  minus the stored previous penalty, and stores the returned value as the previous
  penalty, which the next call subtracts. When the mutual information of the two
  structures is 1, the community term \<open>alpha * (1 - NMI)\<close> is 0 and the result is the
  graph term minus the previous penalty.
\<close>

theorem get_penalty_delta:
  assumes "new_community_structure e = Some new" and "alpha_metric e = Some alpha"
  shows "get_penalty K e =
           Inr (e\<lparr>old_penalty_value :=
                    alpha * (1 - normalized_mutual_information K new (old_community_structure e))
                    + (1 - alpha) * graph_similarity K (graph e) (old_graph e)
                    - old_penalty_value e\<rparr>,
                alpha * (1 - normalized_mutual_information K new (old_community_structure e))
                + (1 - alpha) * graph_similarity K (graph e) (old_graph e)
                - old_penalty_value e)
       \<and> (\<forall>e' p. get_penalty K e = Inr (e', p) \<longrightarrow>
             old_penalty_value e' = p
           \<and> (\<forall>e'' p'. get_penalty K e' = Inr (e'', p') \<longrightarrow>
                 p' = alpha * (1 - normalized_mutual_information K new (old_community_structure e))
                      + (1 - alpha) * graph_similarity K (graph e) (old_graph e) - p))
       \<and> (normalized_mutual_information K new (old_community_structure e) = 1 \<longrightarrow>
             alpha * (1 - normalized_mutual_information K new (old_community_structure e)) = 0
           \<and> get_penalty K e =
               Inr (e\<lparr>old_penalty_value :=
                        (1 - alpha) * graph_similarity K (graph e) (old_graph e) - old_penalty_value e\<rparr>,
                    (1 - alpha) * graph_similarity K (graph e) (old_graph e) - old_penalty_value e))"
proof (intro conjI allI impI)
  show "get_penalty K e =
           Inr (e\<lparr>old_penalty_value :=
                    alpha * (1 - normalized_mutual_information K new (old_community_structure e))
                    + (1 - alpha) * graph_similarity K (graph e) (old_graph e)
                    - old_penalty_value e\<rparr>,
                alpha * (1 - normalized_mutual_information K new (old_community_structure e))
                + (1 - alpha) * graph_similarity K (graph e) (old_graph e)
                - old_penalty_value e)"
    by (rule get_penalty_value [OF assms])
next
  fix e' p
  assume gp: "get_penalty K e = Inr (e', p)"
  then have e': "e' = e\<lparr>old_penalty_value := p\<rparr>"
    by (auto elim: get_penalty_returns)
  then show "old_penalty_value e' = p" by simp
  fix e'' p'
  assume "get_penalty K e' = Inr (e'', p')"
  then show "p' = alpha * (1 - normalized_mutual_information K new (old_community_structure e))
                  + (1 - alpha) * graph_similarity K (graph e) (old_graph e) - p"
    using assms by (simp add: e' get_penalty_def Let_def)
next
  assume one: "normalized_mutual_information K new (old_community_structure e) = 1"
  then show "alpha * (1 - normalized_mutual_information K new (old_community_structure e)) = 0"
    by simp
  from one show "get_penalty K e =
               Inr (e\<lparr>old_penalty_value :=
                        (1 - alpha) * graph_similarity K (graph e) (old_graph e) - old_penalty_value e\<rparr>,
                    (1 - alpha) * graph_similarity K (graph e) (old_graph e) - old_penalty_value e)"
    by (simp add: get_penalty_value [OF assms])
qed


lemma example_detected_fields:
  "new_community_structure example_env_detected = Some [[0], [1, 2, 3, 4], [5, 6, 7, 8, 9]]"
  "new_community_structure example_env_same = Some [[0, 1, 2, 3, 4], [5, 6, 7, 8, 9]]"
  "alpha_metric example_env_detected = Some (7 / 10)"
  "alpha_metric example_env_same = Some (7 / 10)"
  "lambda_metric example_env_detected = Some (1 / 10)"
  "lambda_metric example_env_same = Some (1 / 10)"
  "old_community_structure example_env_detected = [[0, 1, 2, 3, 4], [5, 6, 7, 8, 9]]"
  "old_community_structure example_env_same = [[0, 1, 2, 3, 4], [5, 6, 7, 8, 9]]"
  "old_penalty_value example_env_detected = 0"
  "old_penalty_value example_env_same = 0"
  "node_target example_env_detected = 0"
  "node_target example_env_same = 0"
  "community_target example_env_detected = [0, 1, 2, 3, 4]"
  "community_target example_env_same = [0, 1, 2, 3, 4]"
  "tau example_env_detected = 1 / 2"
  "tau example_env_same = 1 / 2"
  by (simp_all add: example_env_detected_def example_env_same_def example_env_acted_def
      example_env_def)

lemma example_collaborators_fields:
  "normalized_mutual_information example_collaborators a b = (if a = b then 1 else 1 / 2)"
  "community_similarity example_collaborators c d = (if c = d then 1 else 1 / 4)"
  "graph_similarity example_collaborators g og = 1 / 5"
  "compute_community example_collaborators g = [[0], [1, 2, 3, 4], [5, 6, 7, 8, 9]]"
  by (simp_all add: example_collaborators_def)

theorem get_penalty_delta_witness:
  "new_community_structure example_env_detected = Some [[0], [1, 2, 3, 4], [5, 6, 7, 8, 9]]
   \<and> alpha_metric example_env_detected = Some (7 / 10)
   \<and> get_penalty example_collaborators example_env_detected =
        Inr (example_env_detected\<lparr>old_penalty_value := 41 / 100\<rparr>, 41 / 100)
   \<and> normalized_mutual_information example_collaborators [[0, 1, 2, 3, 4], [5, 6, 7, 8, 9]]
        (old_community_structure example_env_same) = 1
   \<and> get_penalty example_collaborators example_env_same =
        Inr (example_env_same\<lparr>old_penalty_value := 3 / 50\<rparr>, 3 / 50)"
proof -
  note A = get_penalty_delta [OF example_detected_fields(1) example_detected_fields(3),
      of example_collaborators, THEN conjunct1]
  note B = get_penalty_delta [OF example_detected_fields(2) example_detected_fields(4),
      of example_collaborators, THEN conjunct2, THEN conjunct2, THEN mp]
  have one: "normalized_mutual_information example_collaborators [[0, 1, 2, 3, 4], [5, 6, 7, 8, 9]]
        (old_community_structure example_env_same) = 1"
    by (simp add: example_detected_fields example_collaborators_fields)
  have a: "get_penalty example_collaborators example_env_detected =
        Inr (example_env_detected\<lparr>old_penalty_value := 41 / 100\<rparr>, 41 / 100)"
    using A by (simp add: example_detected_fields example_collaborators_fields)
  have b: "get_penalty example_collaborators example_env_same =
        Inr (example_env_same\<lparr>old_penalty_value := 3 / 50\<rparr>, 3 / 50)"
    using B [OF one] by (simp add: example_detected_fields example_collaborators_fields)
  from a b one show ?thesis by (simp add: example_detected_fields)
qed


lemma get_reward_done:
  assumes "get_reward K e = Inr (e', r, True)"
  shows "\<exists>c. find (\<lambda>c. node_target e \<in> set c) (the (new_community_structure e)) = Some c
           \<and> (length c = 1
               \<or> community_similarity K (remove1 (node_target e) c)
                     (remove1 (node_target e) (community_target e)) \<le> tau e)"
proof -
  from assms obtain p where gp: "get_penalty K e = Inr (e', p)"
    and e': "e' = e\<lparr>old_penalty_value := p\<rparr>"
    by (rule get_reward_returns)
  from assms gp show ?thesis
    by (auto simp: get_reward_def Let_def e' split: option.splits if_splits)
qed

text \<open>
  Claim C3. With \<open>lambda_metric\<close> set, the penalty computed and the target node in
  the target community: \<open>get_reward\<close> raises the assertion error when no community of
  the current-step structure contains the target node; otherwise, for the first
  community \<open>c\<close> that contains it, a community of size 1 gives the reward
  \<open>1 - lambda * penalty\<close> and done; else the similarity of \<open>c\<close> without the target
  node and the target community without the target node decides: at most \<open>tau\<close> gives
  \<open>1 - lambda * penalty\<close> and done, above \<open>tau\<close> gives \<open>- lambda * penalty\<close> and not
  done. Whenever \<open>get_reward\<close> returns done, that community has size 1 or that
  similarity is at most \<open>tau\<close>.
\<close>

theorem get_reward_cases:
  assumes "lambda_metric e = Some lam"
    and "new_community_structure e = Some new"
    and "get_penalty K e = Inr (e', penalty)"
    and "node_target e \<in> set (community_target e)"
  shows "(find (\<lambda>c. node_target e \<in> set c) new = None \<longrightarrow> get_reward K e = Inl AssertionError)
       \<and> (\<forall>c. find (\<lambda>c. node_target e \<in> set c) new = Some c \<longrightarrow>
             (length c = 1 \<longrightarrow> get_reward K e = Inr (e', 1 - lam * penalty, True))
           \<and> (length c \<noteq> 1
                \<and> community_similarity K (remove1 (node_target e) c)
                      (remove1 (node_target e) (community_target e)) \<le> tau e \<longrightarrow>
                get_reward K e = Inr (e', 1 - lam * penalty, True))
           \<and> (length c \<noteq> 1
                \<and> \<not> community_similarity K (remove1 (node_target e) c)
                      (remove1 (node_target e) (community_target e)) \<le> tau e \<longrightarrow>
                get_reward K e = Inr (e', - lam * penalty, False)))
       \<and> (\<forall>e'' r. get_reward K e = Inr (e'', r, True) \<longrightarrow>
             (\<exists>c. find (\<lambda>c. node_target e \<in> set c) new = Some c
                \<and> (length c = 1
                    \<or> community_similarity K (remove1 (node_target e) c)
                          (remove1 (node_target e) (community_target e)) \<le> tau e)))"
proof -
  from assms(3) have e': "e' = e\<lparr>old_penalty_value := penalty\<rparr>"
    by (auto elim: get_penalty_returns)
  have none: "find (\<lambda>c. node_target e \<in> set c) new = None \<longrightarrow> get_reward K e = Inl AssertionError"
    using assms(1,2) by (simp add: get_reward_def)
  have some: "\<forall>c. find (\<lambda>c. node_target e \<in> set c) new = Some c \<longrightarrow>
             (length c = 1 \<longrightarrow> get_reward K e = Inr (e', 1 - lam * penalty, True))
           \<and> (length c \<noteq> 1
                \<and> community_similarity K (remove1 (node_target e) c)
                      (remove1 (node_target e) (community_target e)) \<le> tau e \<longrightarrow>
                get_reward K e = Inr (e', 1 - lam * penalty, True))
           \<and> (length c \<noteq> 1
                \<and> \<not> community_similarity K (remove1 (node_target e) c)
                      (remove1 (node_target e) (community_target e)) \<le> tau e \<longrightarrow>
                get_reward K e = Inr (e', - lam * penalty, False))"
    using assms by (simp add: get_reward_def Let_def e')
  have "done": "\<forall>e'' r. get_reward K e = Inr (e'', r, True) \<longrightarrow>
             (\<exists>c. find (\<lambda>c. node_target e \<in> set c) new = Some c
                \<and> (length c = 1
                    \<or> community_similarity K (remove1 (node_target e) c)
                          (remove1 (node_target e) (community_target e)) \<le> tau e))"
    using get_reward_done [of K e] assms(2) by auto
  from none some "done" show ?thesis by blast
qed

lemma example_penalties:
  "get_penalty example_collaborators example_env_detected =
        Inr (example_env_detected\<lparr>old_penalty_value := 41 / 100\<rparr>, 41 / 100)"
  "get_penalty example_collaborators example_env_same =
        Inr (example_env_same\<lparr>old_penalty_value := 3 / 50\<rparr>, 3 / 50)"
  by (simp_all add: get_penalty_def Let_def example_detected_fields example_collaborators_fields)

theorem get_reward_cases_witness:
  "lambda_metric example_env_detected = Some (1 / 10)
   \<and> node_target example_env_detected \<in> set (community_target example_env_detected)
   \<and> find (\<lambda>c. node_target example_env_detected \<in> set c) [[0], [1, 2, 3, 4], [5, 6, 7, 8, 9]] = Some [0]
   \<and> get_reward example_collaborators example_env_detected =
        Inr (example_env_detected\<lparr>old_penalty_value := 41 / 100\<rparr>, 959 / 1000, True)
   \<and> find (\<lambda>c. node_target example_env_same \<in> set c) [[0, 1, 2, 3, 4], [5, 6, 7, 8, 9]]
        = Some [0, 1, 2, 3, 4]
   \<and> get_reward example_collaborators example_env_same =
        Inr (example_env_same\<lparr>old_penalty_value := 3 / 50\<rparr>, - (3 / 500), False)"
proof -
  have nt: "node_target example_env_detected \<in> set (community_target example_env_detected)"
    "node_target example_env_same \<in> set (community_target example_env_same)"
    by (simp_all add: example_detected_fields)
  have f1: "find (\<lambda>c. node_target example_env_detected \<in> set c) [[0], [1, 2, 3, 4], [5, 6, 7, 8, 9]]
              = Some [0]"
    and f2: "find (\<lambda>c. node_target example_env_same \<in> set c) [[0, 1, 2, 3, 4], [5, 6, 7, 8, 9]]
              = Some [0, 1, 2, 3, 4]"
    by (simp_all add: example_detected_fields)
  note A = get_reward_cases [OF example_detected_fields(5) example_detected_fields(1)
      example_penalties(1) nt(1), THEN conjunct2, THEN conjunct1, rule_format, OF f1]
  note B = get_reward_cases [OF example_detected_fields(6) example_detected_fields(2)
      example_penalties(2) nt(2), THEN conjunct2, THEN conjunct1, rule_format, OF f2]
  have a: "get_reward example_collaborators example_env_detected =
        Inr (example_env_detected\<lparr>old_penalty_value := 41 / 100\<rparr>, 959 / 1000, True)"
    using A by simp
  have b: "get_reward example_collaborators example_env_same =
        Inr (example_env_same\<lparr>old_penalty_value := 3 / 50\<rparr>, - (3 / 500), False)"
    using B by (simp add: example_detected_fields example_collaborators_fields)
  from a b nt f1 f2 show ?thesis by (simp add: example_detected_fields)
qed

subsection \<open>The edge budget\<close>

lemma number_of_edges_nonneg: "0 \<le> number_of_edges g"
  by (simp add: number_of_edges_def)

text \<open>
  Claim C10, amended. For a graph with at least one node and \<open>beta\<close> not negative (the
  constructor asserts \<open>0 \<le> beta \<le> 100\<close>), \<open>get_edge_budget\<close> returns the floor of
  the double that the float expression yields, each operation rounded to the nearest
  double: \<open>(edges / nodes + 1) * beta\<close> when the environment's name is \<open>pow\<close> or
  \<open>kar\<close>, \<open>edges / nodes * beta\<close> for every other name. For \<open>beta = 10\<close> and a
  graph of another name with 20 nodes and 40 edges it returns 20.
\<close>

theorem get_edge_budget_rounded:
  assumes "number_of_nodes (graph e) \<noteq> 0" and "0 \<le> value_of (beta e)"
  shows "get_edge_budget e =
           Inr (if env_name e = ''pow'' \<or> env_name e = ''kar''
                then \<lfloor>value_of
                        (float_mul
                           (float_add
                              (true_divide (number_of_edges (graph e)) (number_of_nodes (graph e)))
                              (double_of_int 1))
                           (beta e))\<rfloor>
                else \<lfloor>value_of
                        (float_mul
                           (true_divide (number_of_edges (graph e)) (number_of_nodes (graph e)))
                           (beta e))\<rfloor>)
       \<and> (env_name e \<noteq> ''pow'' \<and> env_name e \<noteq> ''kar'' \<and> beta e = double_of_int 10
            \<and> number_of_nodes (graph e) = 20 \<and> number_of_edges (graph e) = 40 \<longrightarrow>
          get_edge_budget e = Inr 20)"
proof -
  define q where "q = true_divide (number_of_edges (graph e)) (number_of_nodes (graph e))"
  have n: "0 < number_of_nodes (graph e)"
    using assms(1) by (simp add: number_of_nodes_def)
  have qn: "0 \<le> mantissa q"
    unfolding q_def using number_of_edges_nonneg n by (rule true_divide_nonneg)
  have bn: "0 \<le> mantissa (beta e)"
    using assms(2) by (simp add: value_of_nonneg_iff)
  have "0 \<le> mantissa (float_mul (float_add q (double_of_int 1)) (beta e))"
    using qn bn by (intro float_mul_nonneg float_add_nonneg double_of_int_nonneg) simp_all
  then have a: "float_to_int (float_mul (float_add q (double_of_int 1)) (beta e))
                  = \<lfloor>value_of (float_mul (float_add q (double_of_int 1)) (beta e))\<rfloor>"
    by (rule float_to_int_floor)
  have "0 \<le> mantissa (float_mul q (beta e))"
    using qn bn by (rule float_mul_nonneg)
  then have b: "float_to_int (float_mul q (beta e)) = \<lfloor>value_of (float_mul q (beta e))\<rfloor>"
    by (rule float_to_int_floor)
  have "get_edge_budget e =
          Inr (if env_name e = ''pow'' \<or> env_name e = ''kar''
               then \<lfloor>value_of (float_mul (float_add q (double_of_int 1)) (beta e))\<rfloor>
               else \<lfloor>value_of (float_mul q (beta e))\<rfloor>)"
    unfolding get_edge_budget_def q_def [symmetric]
    using assms(1) a b by simp
  then have eq: "get_edge_budget e =
           Inr (if env_name e = ''pow'' \<or> env_name e = ''kar''
                then \<lfloor>value_of
                        (float_mul
                           (float_add
                              (true_divide (number_of_edges (graph e)) (number_of_nodes (graph e)))
                              (double_of_int 1))
                           (beta e))\<rfloor>
                else \<lfloor>value_of
                        (float_mul
                           (true_divide (number_of_edges (graph e)) (number_of_nodes (graph e)))
                           (beta e))\<rfloor>)"
    unfolding q_def .
  have "env_name e \<noteq> ''pow'' \<and> env_name e \<noteq> ''kar'' \<and> beta e = double_of_int 10
            \<and> number_of_nodes (graph e) = 20 \<and> number_of_edges (graph e) = 40 \<longrightarrow>
          get_edge_budget e = Inr 20"
    by (simp add: get_edge_budget_def budget_values)
  with eq show ?thesis by blast
qed

lemma ring_graph_size: "number_of_nodes ring_graph = 20" "number_of_edges ring_graph = 40"
  by code_simp+

lemma example_graph_size: "number_of_nodes example_graph = 10" "number_of_edges example_graph = 8"
  by (simp_all add: number_of_nodes_def number_of_edges_def example_graph_def)

lemma budget_graph_sizes:
  "number_of_nodes five_node_graph = 5" "number_of_edges five_node_graph = 7"
  "number_of_nodes three_node_path = 3" "number_of_edges three_node_path = 2"
  by (simp_all add: number_of_nodes_def number_of_edges_def five_node_graph_def
      three_node_path_def)

theorem get_edge_budget_rounded_witness:
  "number_of_nodes (graph (example_env\<lparr>env_name := ''ring'', graph := ring_graph\<rparr>)) = 20
   \<and> number_of_edges (graph (example_env\<lparr>env_name := ''ring'', graph := ring_graph\<rparr>)) = 40
   \<and> beta (example_env\<lparr>env_name := ''ring'', graph := ring_graph\<rparr>) = double_of_int 10
   \<and> get_edge_budget (example_env\<lparr>env_name := ''ring'', graph := ring_graph\<rparr>) = Inr 20
   \<and> get_edge_budget example_env =
        Inr \<lfloor>value_of (float_mul (true_divide 8 10) (double_of_int 10))\<rfloor>
   \<and> get_edge_budget example_env = Inr 8
   \<and> get_edge_budget (example_env\<lparr>env_name := ''kar''\<rparr>) =
        Inr \<lfloor>value_of (float_mul (float_add (true_divide 8 10) (double_of_int 1)) (double_of_int 10))\<rfloor>
   \<and> get_edge_budget (example_env\<lparr>env_name := ''kar''\<rparr>) = Inr 18"
proof -
  have b: "beta example_env = double_of_int 10" "graph example_env = example_graph"
    "env_name example_env = ''example''"
    by (simp_all add: example_env_def)
  have pos: "0 \<le> value_of (double_of_int 10)"
    by (simp add: value_of_examples)
  have r: "get_edge_budget (example_env\<lparr>env_name := ''ring'', graph := ring_graph\<rparr>) = Inr 20"
    using get_edge_budget_rounded [of "example_env\<lparr>env_name := ''ring'', graph := ring_graph\<rparr>",
        THEN conjunct2] pos
    by (simp add: b ring_graph_size)
  have x: "get_edge_budget example_env =
        Inr \<lfloor>value_of (float_mul (true_divide 8 10) (double_of_int 10))\<rfloor>"
    using get_edge_budget_rounded [of example_env, THEN conjunct1] pos
    by (simp add: b example_graph_size)
  have k: "get_edge_budget (example_env\<lparr>env_name := ''kar''\<rparr>) =
        Inr \<lfloor>value_of (float_mul (float_add (true_divide 8 10) (double_of_int 1)) (double_of_int 10))\<rfloor>"
    using get_edge_budget_rounded [of "example_env\<lparr>env_name := ''kar''\<rparr>", THEN conjunct1] pos
    by (simp add: b example_graph_size)
  have x8: "get_edge_budget example_env = Inr 8"
    by (simp add: get_edge_budget_def b example_graph_size budget_values)
  have k18: "get_edge_budget (example_env\<lparr>env_name := ''kar''\<rparr>) = Inr 18"
    by (simp add: get_edge_budget_def b example_graph_size budget_values)
  from r x k show ?thesis
    unfolding x8 [symmetric] k18 [symmetric] by (simp add: b ring_graph_size)
qed

text \<open>
  The claim as stated fails: the value is not always the floor of the exact product.
  With 5 nodes, 7 edges and \<open>beta = 45\<close> the doubles give \<open>7 / 5 * 45 = 62.99999999999999\<close>
  and the budget 62, where the exact product is 63. Under the name \<open>kar\<close>, with 3
  nodes, 2 edges and \<open>beta = 9\<close>, the budget is 14 where \<open>(2 / 3 + 1) * 9\<close> is 15.
\<close>

theorem get_edge_budget_exact_floor_counterexample:
  "number_of_nodes (graph budget_env_five) = 5
   \<and> number_of_edges (graph budget_env_five) = 7
   \<and> value_of (beta budget_env_five) = 45
   \<and> get_edge_budget budget_env_five = Inr 62
   \<and> \<lfloor>real_of_int (number_of_edges (graph budget_env_five))
        / real_of_int (number_of_nodes (graph budget_env_five))
        * value_of (beta budget_env_five)\<rfloor> = 63
   \<and> number_of_nodes (graph budget_env_kar) = 3
   \<and> number_of_edges (graph budget_env_kar) = 2
   \<and> value_of (beta budget_env_kar) = 9
   \<and> get_edge_budget budget_env_kar = Inr 14
   \<and> \<lfloor>(real_of_int (number_of_edges (graph budget_env_kar))
         / real_of_int (number_of_nodes (graph budget_env_kar)) + 1)
        * value_of (beta budget_env_kar)\<rfloor> = 15"
proof -
  have f: "graph budget_env_five = five_node_graph" "beta budget_env_five = double_of_int 45"
    "env_name budget_env_five = ''five''"
    "graph budget_env_kar = three_node_path" "beta budget_env_kar = double_of_int 9"
    "env_name budget_env_kar = ''kar''"
    by (simp_all add: budget_env_five_def budget_env_kar_def)
  have "get_edge_budget budget_env_five = Inr 62"
    by (simp add: get_edge_budget_def f budget_graph_sizes budget_values)
  moreover have "get_edge_budget budget_env_kar = Inr 14"
    by (simp add: get_edge_budget_def f budget_graph_sizes budget_values)
  ultimately show ?thesis
    by (simp add: f budget_graph_sizes value_of_examples)
qed

subsection \<open>The fixed-size selection\<close>

lemma foldl_min_key:
  fixes f :: "'a \<Rightarrow> int"
  shows "\<exists>k < length (x # ys).
           foldl (\<lambda>best y. if f y < f best then y else best) x ys = (x # ys) ! k
           \<and> (\<forall>j < length (x # ys). f ((x # ys) ! k) \<le> f ((x # ys) ! j))
           \<and> (\<forall>j < k. f ((x # ys) ! k) < f ((x # ys) ! j))"
proof (induction ys rule: rev_induct)
  case Nil
  show ?case by simp
next
  case (snoc y ys)
  let ?step = "\<lambda>best y. if f y < f best then y else best"
  from snoc obtain k where k: "k < length (x # ys)"
    and r: "foldl ?step x ys = (x # ys) ! k"
    and le: "\<And>j. j < length (x # ys) \<Longrightarrow> f ((x # ys) ! k) \<le> f ((x # ys) ! j)"
    and lt: "\<And>j. j < k \<Longrightarrow> f ((x # ys) ! k) < f ((x # ys) ! j)"
    by blast
  have nth_old: "(x # ys @ [y]) ! j = (x # ys) ! j" if "j < length (x # ys)" for j
    using that by (metis append_Cons nth_append)
  have nth_new: "(x # ys @ [y]) ! length (x # ys) = y"
    by (metis append_Cons nth_append_length)
  show ?case
  proof (cases "f y < f ((x # ys) ! k)")
    case True
    have "foldl ?step x (ys @ [y]) = (x # ys @ [y]) ! length (x # ys)"
      using True r nth_new by simp
    moreover have "\<forall>j < length (x # ys @ [y]). f ((x # ys @ [y]) ! length (x # ys)) \<le> f ((x # ys @ [y]) ! j)"
    proof (intro allI impI)
      fix j assume "j < length (x # ys @ [y])"
      then consider "j < length (x # ys)" | "j = length (x # ys)" by force
      then show "f ((x # ys @ [y]) ! length (x # ys)) \<le> f ((x # ys @ [y]) ! j)"
      proof cases
        case 1
        with le [OF 1] True show ?thesis by (simp only: nth_old nth_new)
      next
        case 2
        then show ?thesis by simp
      qed
    qed
    moreover have "\<forall>j < length (x # ys). f ((x # ys @ [y]) ! length (x # ys)) < f ((x # ys @ [y]) ! j)"
    proof (intro allI impI)
      fix j assume j: "j < length (x # ys)"
      with le [OF j] True show "f ((x # ys @ [y]) ! length (x # ys)) < f ((x # ys @ [y]) ! j)"
        by (simp only: nth_old nth_new)
    qed
    ultimately show ?thesis
      by (intro exI [of _ "length (x # ys)"]) simp
  next
    case False
    have "foldl ?step x (ys @ [y]) = (x # ys @ [y]) ! k"
      using False r k nth_old by simp
    moreover have "\<forall>j < length (x # ys @ [y]). f ((x # ys @ [y]) ! k) \<le> f ((x # ys @ [y]) ! j)"
    proof (intro allI impI)
      fix j assume "j < length (x # ys @ [y])"
      then consider "j < length (x # ys)" | "j = length (x # ys)" by force
      then show "f ((x # ys @ [y]) ! k) \<le> f ((x # ys @ [y]) ! j)"
      proof cases
        case 1
        with le [OF 1] k show ?thesis by (simp only: nth_old)
      next
        case 2
        with False k show ?thesis by (simp only: nth_old nth_new)
      qed
    qed
    moreover have "\<forall>j < k. f ((x # ys @ [y]) ! k) < f ((x # ys @ [y]) ! j)"
    proof (intro allI impI)
      fix j assume j: "j < k"
      with k have "j < length (x # ys)" by simp
      with lt [OF j] k show "f ((x # ys @ [y]) ! k) < f ((x # ys @ [y]) ! j)"
        by (simp only: nth_old)
    qed
    ultimately show ?thesis using k
      by (intro exI [of _ k]) simp
  qed
qed

lemma py_index_Some:
  "py_index x xs = Some i \<longleftrightarrow> i < length xs \<and> xs ! i = x \<and> (\<forall>j < i. xs ! j \<noteq> x)"
proof (induction xs arbitrary: i)
  case Nil
  show ?case by simp
next
  case (Cons y ys)
  show ?case
  proof (cases "y = x")
    case True
    then show ?thesis by (cases i) auto
  next
    case False
    show ?thesis
    proof (cases i)
      case 0
      with False show ?thesis by auto
    next
      case (Suc n)
      have "(\<forall>j < Suc n. (y # ys) ! j \<noteq> x) \<longleftrightarrow> (\<forall>j < n. ys ! j \<noteq> x)"
        using False by (auto simp: less_Suc_eq_0_disj)
      with False Suc Cons.IH [of n] show ?thesis by auto
    qed
  qed
qed


lemma py_max_Max:
  assumes "xs \<noteq> []"
  shows "py_max xs = Inr (Max (set xs))"
proof -
  from assms obtain x ys where xs: "xs = x # ys" by (cases xs) auto
  have "foldl max x ys = fold max ys x"
    by (simp add: foldl_conv_fold max.commute)
  also have "\<dots> = Max (set (x # ys))"
    by (simp only: Max.set_eq_fold)
  finally show ?thesis by (simp add: py_max_def xs)
qed

text \<open>
  Claim C9, amended. When the original structure has a community, \<open>fixed_community\<close>
  chooses the community whose size is closest to
  \<open>ceil(maximum community size * preferred_community_size)\<close>, the product being the
  float product, rounded to the nearest double; when several sizes are equally close it
  chooses the first such community in the order of the list
  \<open>original_community_structure.communities\<close>: every community before the chosen one
  is strictly farther from the preferred size, and none is closer.
\<close>

theorem fixed_community_first_in_list:
  assumes "original_community_structure e \<noteq> []"
  shows "\<exists>i < length (original_community_structure e).
           fixed_community e = Inr (e\<lparr>community_target := original_community_structure e ! i\<rparr>)
         \<and> (\<forall>j < length (original_community_structure e).
               \<bar>int (length (original_community_structure e ! i))
                  - \<lceil>value_of (float_mul
                       (double_of_int (Max (set (map (\<lambda>c. int (length c)) (original_community_structure e)))))
                       (preferred_community_size e))\<rceil>\<bar>
               \<le> \<bar>int (length (original_community_structure e ! j))
                  - \<lceil>value_of (float_mul
                       (double_of_int (Max (set (map (\<lambda>c. int (length c)) (original_community_structure e)))))
                       (preferred_community_size e))\<rceil>\<bar>)
         \<and> (\<forall>j < i.
               \<bar>int (length (original_community_structure e ! i))
                  - \<lceil>value_of (float_mul
                       (double_of_int (Max (set (map (\<lambda>c. int (length c)) (original_community_structure e)))))
                       (preferred_community_size e))\<rceil>\<bar>
               < \<bar>int (length (original_community_structure e ! j))
                  - \<lceil>value_of (float_mul
                       (double_of_int (Max (set (map (\<lambda>c. int (length c)) (original_community_structure e)))))
                       (preferred_community_size e))\<rceil>\<bar>)"
proof -
  define cs where "cs = original_community_structure e"
  define lens where "lens = map (\<lambda>c. int (length c)) cs"
  define p where
    "p = \<lceil>value_of (float_mul (double_of_int (Max (set lens))) (preferred_community_size e))\<rceil>"
  define f where "f = (\<lambda>x::int. \<bar>x - p\<bar>)"
  from assms have ne: "lens \<noteq> []" by (simp add: lens_def cs_def)
  then obtain x ys where lens: "lens = x # ys" by (cases lens) auto
  have len: "length lens = length cs" by (simp add: lens_def)
  from foldl_min_key [where f = f and x = x and ys = ys] obtain k where k: "k < length lens"
    and r: "foldl (\<lambda>best y. if f y < f best then y else best) x ys = lens ! k"
    and le: "\<And>j. j < length lens \<Longrightarrow> f (lens ! k) \<le> f (lens ! j)"
    and lt: "\<And>j. j < k \<Longrightarrow> f (lens ! k) < f (lens ! j)"
    unfolding lens by blast
  have mk: "py_min_key f lens = Inr (lens ! k)"
    by (simp add: py_min_key_def lens r [unfolded lens])
  have first: "\<forall>j < k. lens ! j \<noteq> lens ! k"
    using lt by fastforce
  have idx: "py_index (lens ! k) lens = Some k"
    using k first by (simp add: py_index_Some)
  have nth: "lens ! j = int (length (cs ! j))" if "j < length cs" for j
    using that by (simp add: lens_def)
  have fc: "fixed_community e = Inr (e\<lparr>community_target := cs ! k\<rparr>)"
    using k len mk idx
    by (simp add: fixed_community_def Let_def cs_def [symmetric] lens_def [symmetric]
        py_max_Max [OF ne] float_to_int_np_ceil p_def [symmetric] f_def [symmetric])
  have "\<forall>j < length cs. \<bar>int (length (cs ! k)) - p\<bar> \<le> \<bar>int (length (cs ! j)) - p\<bar>"
    using le k len by (simp add: nth [symmetric] f_def)
  moreover have "\<forall>j < k. \<bar>int (length (cs ! k)) - p\<bar> < \<bar>int (length (cs ! j)) - p\<bar>"
    using lt k len by (simp add: nth [symmetric] f_def)
  moreover have "k < length cs" using k len by simp
  ultimately have "\<exists>i < length cs. fixed_community e = Inr (e\<lparr>community_target := cs ! i\<rparr>)
      \<and> (\<forall>j < length cs. \<bar>int (length (cs ! i)) - p\<bar> \<le> \<bar>int (length (cs ! j)) - p\<bar>)
      \<and> (\<forall>j < i. \<bar>int (length (cs ! i)) - p\<bar> < \<bar>int (length (cs ! j)) - p\<bar>)"
    using fc by blast
  then show ?thesis unfolding p_def lens_def cs_def .
qed

lemma tie_descending:
  "fixed_community tie_env_descending = Inr (tie_env_descending\<lparr>community_target := [4, 5, 6]\<rparr>)"
  "fixed_community_size_sorted size_sorted_ascending (1 / 2) tie_env_descending = Inr [7]"
  by (simp_all add: fixed_community_def fixed_community_size_sorted_def size_sorted_ascending_def
      tie_env_descending_def example_env_def py_max_def py_min_key_def Let_def
      preferred_size_values value_of_examples)

lemma tie_ascending:
  "fixed_community tie_env_ascending = Inr (tie_env_ascending\<lparr>community_target := [7]\<rparr>)"
  "fixed_community_size_sorted size_sorted_descending (1 / 2) tie_env_ascending = Inr [4, 5, 6]"
  by (simp_all add: fixed_community_def fixed_community_size_sorted_def size_sorted_descending_def
      tie_env_ascending_def example_env_def py_max_def py_min_key_def Let_def
      preferred_size_values value_of_examples)


theorem fixed_community_first_in_list_witness:
  "original_community_structure tie_env_descending \<noteq> []
   \<and> fixed_community tie_env_descending = Inr (tie_env_descending\<lparr>community_target := [4, 5, 6]\<rparr>)
   \<and> (\<exists>i < length (original_community_structure tie_env_descending).
         fixed_community tie_env_descending =
           Inr (tie_env_descending\<lparr>community_target := original_community_structure tie_env_descending ! i\<rparr>))"
proof -
  have ne: "original_community_structure tie_env_descending \<noteq> []"
    by (simp add: tie_env_descending_def)
  from fixed_community_first_in_list [OF ne]
  have "\<exists>i < length (original_community_structure tie_env_descending).
         fixed_community tie_env_descending =
           Inr (tie_env_descending\<lparr>community_target := original_community_structure tie_env_descending ! i\<rparr>)"
    by blast
  with ne tie_descending(1) show ?thesis by simp
qed

lemma rounding_selection:
  "fixed_community rounding_env = Inr (rounding_env\<lparr>community_target := [25..32]\<rparr>)"
  "fixed_community_size_sorted size_sorted_descending (28 / 100) rounding_env = Inr [33..39]"
  by (simp_all add: fixed_community_def fixed_community_size_sorted_def size_sorted_descending_def
      rounding_env_def py_max_def py_min_key_def Let_def preferred_size_values)

text \<open>
  The claim as stated fails twice. The choice follows the list of the structure, not a
  size-sorted order: in the list by decreasing size the code chooses \<open>[4, 5, 6]\<close> where
  the ascending order gives \<open>[7]\<close> first; in the list by increasing size the code
  chooses \<open>[7]\<close> where the descending order gives \<open>[4, 5, 6]\<close> first. And the ceiling
  is taken of the rounded product: with the sizes 25, 8, 7 and the fraction \<open>0.28\<close> the
  float product is \<open>7.000000000000001\<close>, so the code prefers the size 8 and chooses
  the community of 8 nodes, where \<open>ceil(25 * 0.28) = 7\<close> names the community of 7.
\<close>

theorem fixed_community_size_sorted_counterexample:
  "fixed_community tie_env_descending = Inr (tie_env_descending\<lparr>community_target := [4, 5, 6]\<rparr>)
   \<and> fixed_community_size_sorted size_sorted_ascending (1 / 2) tie_env_descending = Inr [7]
   \<and> fixed_community tie_env_ascending = Inr (tie_env_ascending\<lparr>community_target := [7]\<rparr>)
   \<and> fixed_community_size_sorted size_sorted_descending (1 / 2) tie_env_ascending = Inr [4, 5, 6]
   \<and> preferred_community_size rounding_env = round_ratio 28 100
   \<and> fixed_community rounding_env = Inr (rounding_env\<lparr>community_target := [25..32]\<rparr>)
   \<and> fixed_community_size_sorted size_sorted_descending (28 / 100) rounding_env = Inr [33..39]"
  using tie_descending tie_ascending rounding_selection by (simp add: rounding_env_def)

subsection \<open>The target node and the target community\<close>

lemma pick_in_set: "xs \<noteq> [] \<Longrightarrow> pick xs r \<in> set xs"
  by (simp add: pick_def)

lemma resample_node_returns:
  assumes "resample_node community old_node draws = Return (n, rs)"
  shows "n \<in> set community \<and> Some n \<noteq> old_node"
  using assms
proof (induction draws)
  case Nil
  then show ?case by (simp split: if_splits)
next
  case (Cons r draws)
  then show ?case by (auto simp: pick_in_set split: if_splits)
qed

lemma change_target_node_drawn:
  assumes "change_target_node e None draws = Return (e', rs)"
  shows "node_target e' \<in> set (community_target e') \<and> community_target e' = community_target e
         \<and> node_target e' \<noteq> node_target e"
proof -
  from assms obtain n where r: "resample_node (community_target e) (Some (node_target e)) draws = Return (n, rs)"
    and e': "e' = e\<lparr>node_target := n\<rparr>"
    by (auto simp: change_target_node_def split: outcome.splits)
  from resample_node_returns [OF r] show ?thesis by (simp add: e')
qed

lemma change_target_node_explicit:
  "change_target_node e (Some n) draws = Return (e\<lparr>node_target := n\<rparr>, draws)"
  by (simp add: change_target_node_def)

lemma change_target_community_returns:
  assumes "change_target_community method e community node_target_arg draws = Return (e', rs)"
  shows "\<exists>e1 rs1. change_target_node e1 node_target_arg rs1 = Return (e', rs)
           \<and> (\<forall>c. community = Some c \<longrightarrow> e1 = e\<lparr>community_target := c\<rparr> \<and> rs1 = draws)"
proof (cases community)
  case None
  with assms obtain e1 rs1 where "change_target_node e1 node_target_arg rs1 = Return (e', rs)"
    by (auto simp: change_target_community_def split: outcome.splits)
  with None show ?thesis by auto
next
  case (Some c)
  with assms have "change_target_node (e\<lparr>community_target := c\<rparr>) node_target_arg draws = Return (e', rs)"
    by (simp add: change_target_community_def)
  with Some show ?thesis by auto
qed

lemma change_target_node_succeeds:
  assumes "x \<in> set (community_target e)" and "x \<noteq> node_target e"
  shows "\<exists>r. change_target_node e None [r] = Return (e\<lparr>node_target := x\<rparr>, [])"
proof -
  from assms(1) obtain i where i: "i < length (community_target e)" "community_target e ! i = x"
    by (auto simp: in_set_conv_nth)
  then have "pick (community_target e) i = x" by (simp add: pick_def)
  moreover from i have "community_target e \<noteq> []" by auto
  ultimately have "change_target_node e None [i] = Return (e\<lparr>node_target := x\<rparr>, [])"
    using assms(2) by (simp add: change_target_node_def)
  then show ?thesis ..
qed

text \<open>
  Claim C8, amended. After a call of \<open>change_target_node\<close> or
  \<open>change_target_community\<close> that returns, the target node is in the target community
  when no node is passed: the node is then drawn from the community, whether the
  community was passed or selected by a policy (also in the constructor's call, where
  the previous node is \<open>None\<close>). A node that is passed becomes the target as it is, so
  the target node is in the target community exactly when the passed node is a member
  of the community the call leaves as target. When the community holds a node other than
  the current target, a draw exists with which \<open>change_target_node\<close> returns it.
\<close>

theorem target_node_in_community:
  "(\<forall>e' rs. change_target_node e None draws = Return (e', rs) \<longrightarrow>
       node_target e' \<in> set (community_target e'))
   \<and> (\<forall>e' rs. change_target_community method e community None draws = Return (e', rs) \<longrightarrow>
         node_target e' \<in> set (community_target e'))
   \<and> (\<forall>n e' rs. change_target_node e (Some n) draws = Return (e', rs) \<longrightarrow>
         node_target e' = n \<and> community_target e' = community_target e
         \<and> (node_target e' \<in> set (community_target e') \<longleftrightarrow> n \<in> set (community_target e)))
   \<and> (\<forall>n e' rs. change_target_community method e community (Some n) draws = Return (e', rs) \<longrightarrow>
         node_target e' = n
         \<and> (\<forall>c. community = Some c \<longrightarrow> community_target e' = c)
         \<and> (node_target e' \<in> set (community_target e') \<longleftrightarrow> n \<in> set (community_target e')))
   \<and> (\<forall>n rs. resample_node (community_target e) None draws = Return (n, rs) \<longrightarrow>
         n \<in> set (community_target e))
   \<and> (\<forall>x \<in> set (community_target e). x \<noteq> node_target e \<longrightarrow>
         (\<exists>r. change_target_node e None [r] = Return (e\<lparr>node_target := x\<rparr>, [])))"
proof (intro conjI allI impI ballI)
  fix e' rs
  assume "change_target_node e None draws = Return (e', rs)"
  from change_target_node_drawn [OF this] show "node_target e' \<in> set (community_target e')"
    by blast
next
  fix e' rs
  assume "change_target_community method e community None draws = Return (e', rs)"
  from change_target_community_returns [OF this]
  obtain e1 rs1 where "change_target_node e1 None rs1 = Return (e', rs)"
    by blast
  from change_target_node_drawn [OF this] show "node_target e' \<in> set (community_target e')"
    by blast
next
  fix n e' rs
  assume "change_target_node e (Some n) draws = Return (e', rs)"
  then have e': "e' = e\<lparr>node_target := n\<rparr>"
    by (simp add: change_target_node_explicit)
  then show "node_target e' = n" and "community_target e' = community_target e"
    and "node_target e' \<in> set (community_target e') \<longleftrightarrow> n \<in> set (community_target e)"
    by simp_all
next
  fix n e' rs
  assume a: "change_target_community method e community (Some n) draws = Return (e', rs)"
  from change_target_community_returns [OF this]
  obtain e1 rs1 where c: "change_target_node e1 (Some n) rs1 = Return (e', rs)"
    and s: "\<And>c. community = Some c \<Longrightarrow> e1 = e\<lparr>community_target := c\<rparr> \<and> rs1 = draws"
    by blast
  from c have e': "e' = e1\<lparr>node_target := n\<rparr>"
    by (simp add: change_target_node_explicit)
  then show nt: "node_target e' = n" by simp
  then show "node_target e' \<in> set (community_target e') \<longleftrightarrow> n \<in> set (community_target e')"
    by simp
  fix c
  assume "community = Some c"
  from s [OF this] show "community_target e' = c" by (simp add: e')
next
  fix n rs
  assume "resample_node (community_target e) None draws = Return (n, rs)"
  from resample_node_returns [OF this] show "n \<in> set (community_target e)" by simp
next
  fix x
  assume "x \<in> set (community_target e)" and "x \<noteq> node_target e"
  then show "\<exists>r. change_target_node e None [r] = Return (e\<lparr>node_target := x\<rparr>, [])"
    by (rule change_target_node_succeeds)
qed


lemma example_fixed_community:
  "fixed_community example_env = Inr (example_env\<lparr>community_target := [0, 1, 2, 3, 4]\<rparr>)"
  by (simp add: fixed_community_def example_env_def py_max_def py_min_key_def Let_def
      preferred_size_values)

lemma example_change_target_node:
  "change_target_node example_env None [0, 3] = Return (example_env\<lparr>node_target := 3\<rparr>, [])"
  by (simp add: change_target_node_def example_env_def pick_def)

lemma example_change_target_community:
  "change_target_community 2 example_env None None [5, 1] =
     Return (example_env\<lparr>community_target := [0, 1, 2, 3, 4], node_target := 1\<rparr>, [])"
  by (simp add: change_target_community_def example_fixed_community)
     (simp add: change_target_node_def example_env_def pick_def)

theorem target_node_in_community_witness:
  "change_target_node example_env None [0, 3] = Return (example_env\<lparr>node_target := 3\<rparr>, [])
   \<and> node_target (example_env\<lparr>node_target := 3\<rparr>)
        \<in> set (community_target (example_env\<lparr>node_target := 3\<rparr>))
   \<and> change_target_community 2 example_env None None [5, 1] =
        Return (example_env\<lparr>community_target := [0, 1, 2, 3, 4], node_target := 1\<rparr>, [])
   \<and> node_target (example_env\<lparr>community_target := [0, 1, 2, 3, 4], node_target := 1\<rparr>)
        \<in> set (community_target (example_env\<lparr>community_target := [0, 1, 2, 3, 4], node_target := 1\<rparr>))"
proof -
  note A = target_node_in_community [of example_env "[0, 3]" 2 None,
      THEN conjunct1, rule_format, OF example_change_target_node]
  note B = target_node_in_community [of example_env "[5, 1]" 2 None,
      THEN conjunct2, THEN conjunct1, rule_format, OF example_change_target_community]
  from A B example_change_target_node example_change_target_community
  show ?thesis by blast
qed

text \<open>
  The claim as stated fails for a passed node outside the community: node 7 with the
  target community \<open>{0..4}\<close>, and node 0 with the passed community \<open>{5..9}\<close>.
\<close>

theorem target_node_in_community_counterexample:
  "change_target_node example_env (Some 7) [] = Return (example_env\<lparr>node_target := 7\<rparr>, [])
   \<and> node_target (example_env\<lparr>node_target := 7\<rparr>)
        \<notin> set (community_target (example_env\<lparr>node_target := 7\<rparr>))
   \<and> change_target_community 2 example_env (Some [5, 6, 7, 8, 9]) (Some 0) [] =
        Return (example_env\<lparr>community_target := [5, 6, 7, 8, 9], node_target := 0\<rparr>, [])
   \<and> node_target (example_env\<lparr>community_target := [5, 6, 7, 8, 9], node_target := 0\<rparr>)
        \<notin> set (community_target (example_env\<lparr>community_target := [5, 6, 7, 8, 9], node_target := 0\<rparr>))"
  by (simp add: change_target_community_def change_target_node_def example_env_def)

end
